theory Spec2Isabelle
  imports Complex_Main
begin

section \<open>Values read from a log line\<close>

text \<open>
  \<^verbatim>\<open>json.loads\<close> is a library function; a line of a log file enters the model as the value
  it returns: \<open>None\<close> when it raises \<^verbatim>\<open>JSONDecodeError\<close>, and otherwise the decoded value.
  Numbers matter to the code only through their truth value, so one constructor stands for
  integers and floats alike.  An object keeps its members in source order; Python's
  \<^verbatim>\<open>dict\<close> keeps the last of several members with the same key.
\<close>

datatype json =
    JNull
  | JBool bool
  | JNum rat
  | JStr string
  | JArr "json list"
  | JObj "(string \<times> json) list"

type_synonym raw_line = "json option"

datatype exn =
    JSONDecodeError
  | AttributeError
  | TypeError
  | ValueError
  | OverflowError
  | IntegrityError
  | IOError
  | ProgrammingError
  | HTTPException nat

text \<open>Python's truth value of a decoded JSON value (\<^verbatim>\<open>if x:\<close>).\<close>

fun truthy :: "json \<Rightarrow> bool" where
  "truthy JNull = False"
| "truthy (JBool b) = b"
| "truthy (JNum n) = (n \<noteq> 0)"
| "truthy (JStr s) = (s \<noteq> [])"
| "truthy (JArr xs) = (xs \<noteq> [])"
| "truthy (JObj kvs) = (kvs \<noteq> [])"

text \<open>\<^verbatim>\<open>log_entry.get(key, default)\<close> on a dict: the last member with that key.\<close>

definition dict_lookup :: "(string \<times> json) list \<Rightarrow> string \<Rightarrow> json option" where
  "dict_lookup kvs k = map_of (rev kvs) k"

definition dict_get :: "(string \<times> json) list \<Rightarrow> string \<Rightarrow> json \<Rightarrow> json" where
  "dict_get kvs k d = (case dict_lookup kvs k of Some v \<Rightarrow> v | None \<Rightarrow> d)"

text \<open>
  \<^verbatim>\<open>level not in valid_levels\<close>, with \<^verbatim>\<open>valid_levels\<close> the set of the strings configured
  under \<^verbatim>\<open>app.log_levels\<close>: hashing a list or a dict raises, every other value that is
  not a string is simply no member.
\<close>

fun level_of :: "string list \<Rightarrow> json \<Rightarrow> exn + string" where
  "level_of valid_levels (JStr s) = Inr (if s \<in> set valid_levels then s else ''UNKNOWN'')"
| "level_of valid_levels (JArr xs) = Inl TypeError"
| "level_of valid_levels (JObj kvs) = Inl TypeError"
| "level_of valid_levels _ = Inr ''UNKNOWN''"

text \<open>\<^verbatim>\<open>'.' in class_field\<close>: substring test on a string, membership on a list, key test on a
  dict, \<^verbatim>\<open>TypeError\<close> on a number or a boolean.\<close>

fun contains_dot :: "json \<Rightarrow> exn + bool" where
  "contains_dot (JStr s) = Inr (CHR ''.'' \<in> set s)"
| "contains_dot (JArr xs) = Inr (JStr ''.'' \<in> set xs)"
| "contains_dot (JObj kvs) = Inr (''.'' \<in> fst ` set kvs)"
| "contains_dot _ = Inl TypeError"

text \<open>\<^verbatim>\<open>class_field.split('.', 1)\<close> on a string that contains a dot: the part before the
  first dot and everything after it.\<close>

definition split_first_dot :: "string \<Rightarrow> string \<times> string" where
  "split_first_dot s =
     (takeWhile (\<lambda>c. c \<noteq> CHR ''.'') s, drop 1 (dropWhile (\<lambda>c. c \<noteq> CHR ''.'') s))"

text \<open>The branch \<^verbatim>\<open>if class_field and '.' in class_field\<close> with the unpacking of the split;
  \<open>None\<close> is the \<^verbatim>\<open>else\<close> branch.  Only a string has \<^verbatim>\<open>split\<close>.\<close>

definition class_split :: "json \<Rightarrow> exn + (string \<times> string) option" where
  "class_split class_field =
     (if \<not> truthy class_field then Inr None
      else case contains_dot class_field of
             Inl e \<Rightarrow> Inl e
           | Inr False \<Rightarrow> Inr None
           | Inr True \<Rightarrow>
               (case class_field of
                  JStr s \<Rightarrow> Inr (Some (split_first_dot s))
                | _ \<Rightarrow> Inl AttributeError))"

text \<open>
  The three \<^verbatim>\<open>datetime.strptime\<close> attempts and the later
  \<^verbatim>\<open>strftime('%Y-%m-%d %H:00:00')\<close> belong to the standard library.  They enter as one
  function \<open>hour_of\<close>: the hour bucket of a timestamp string that one of the three formats
  accepts, \<open>None\<close> when all three raise \<^verbatim>\<open>ValueError\<close>.  On anything but a string
  \<^verbatim>\<open>strptime\<close> raises \<^verbatim>\<open>TypeError\<close>.
\<close>

text \<open>
  The surroundings of a run: the configured levels, the timestamp function, what reading a
  file yields (its lines as \<^verbatim>\<open>json.loads\<close> sees them, and whether the stream raises after
  the last of them), at which yields of \<^verbatim>\<open>process_log_file\<close> (file and line index of
  the flush before \<^verbatim>\<open>await asyncio.sleep(0)\<close>) the event loop serves a pause request for
  the job, and the answers of the file system and of the bucket: \<^verbatim>\<open>os.path.isdir\<close>,
  \<^verbatim>\<open>os.walk\<close> as pairs of a directory and a file name in it,
  \<^verbatim>\<open>validate_customer_folder\<close> and \<^verbatim>\<open>list_s3_files\<close> after their retries, and the
  platform's \<^verbatim>\<open>strftime('%Y%m%d-%H')\<close> on a date and hour, given as the hours since
  0001-01-01 00:00.
\<close>

record env =
  log_levels :: "string list"
  hour_of :: "string \<Rightarrow> string option"
  read_file :: "string \<Rightarrow> raw_line list \<times> bool"
  pause_at :: "string \<Rightarrow> nat \<Rightarrow> bool"
  is_dir :: "string \<Rightarrow> bool"
  walk :: "string \<Rightarrow> (string \<times> string) list"
  validate_customer_folder :: "string option \<Rightarrow> exn + bool"
  list_s3_files :: "string \<Rightarrow> exn + string list"
  strftime_ymdh :: "nat \<Rightarrow> string"

fun strptime_any :: "env \<Rightarrow> json \<Rightarrow> exn + string" where
  "strptime_any E (JStr s) = (case hour_of E s of Some h \<Rightarrow> Inr h | None \<Rightarrow> Inl ValueError)"
| "strptime_any E _ = Inl TypeError"


section \<open>Rows, tables and the store\<close>

text \<open>The dict appended to \<^verbatim>\<open>log_entries\<close>; its five keys are always present.\<close>

record log_entry =
  e_logtime :: json
  e_level :: string
  e_class :: string
  e_service :: string
  e_log :: json

text \<open>The tuple appended to \<^verbatim>\<open>log_batch\<close>, one row of table \<^verbatim>\<open>logs\<close>.\<close>

record log_row =
  r_job_id :: string
  r_timestamp :: json
  r_level :: string
  r_class :: string
  r_service :: string
  r_log_message :: json
  r_folder :: string
  r_file_name :: string
  r_line_idx :: nat

datatype status = RUNNING | PAUSED | ERROR | COMPLETED

text \<open>A row of table \<^verbatim>\<open>jobs\<close> and an entry of the registry \<^verbatim>\<open>job_states\<close> have the same
  fields.  The clock readings \<^verbatim>\<open>start_time\<close> and \<^verbatim>\<open>last_updated\<close> are left out.\<close>

record job_row =
  j_folder_path :: string
  j_status :: status
  j_files_processed :: nat
  j_total_files :: nat
  j_current_file :: string

text \<open>A summary table, and equally one of the per-batch dicts: keys with their counts.\<close>

type_synonym counts = "((string \<times> string \<times> string) \<times> nat) list"

record database =
  jobs :: "string \<rightharpoonup> job_row"
  logs :: "log_row list"
  job_metadata :: "(string \<times> string \<times> string) list"
  class_level_counts :: counts
  service_level_counts :: counts
  timeline_counts :: counts
  class_service_counts :: counts

datatype log_event =
    Warn_invalid_json string nat
  | Err_line string nat exn
  | Err_summary string exn
  | Debug_invalid_ts string nat
  | Info_processed string string nat nat
  | Err_file string exn

text \<open>
  What a job's task works on: \<open>db\<close> is the database as the task's connection sees it
  (committed data and its own pending writes), \<open>durable\<close> lists the committed states,
  newest first, \<open>reg\<close> is the job's entry \<^verbatim>\<open>job_states[job_id]\<close>, \<open>logger\<close> the records
  written to the log.  Statements on the store are taken to succeed unless the model says
  otherwise.
\<close>

record state =
  db :: database
  durable :: "database list"
  reg :: job_row
  logger :: "log_event list"

definition commit :: "state \<Rightarrow> state" where
  "commit s = s\<lparr>durable := db s # durable s\<rparr>"

definition log_msg :: "log_event \<Rightarrow> state \<Rightarrow> state" where
  "log_msg ev s = s\<lparr>logger := logger s @ [ev]\<rparr>"

text \<open>\<^verbatim>\<open>UPDATE jobs SET ... WHERE job_id = ?\<close>: nothing happens when the job has no row.\<close>

definition update_job :: "string \<Rightarrow> (job_row \<Rightarrow> job_row) \<Rightarrow> database \<Rightarrow> database" where
  "update_job job_id f d = d\<lparr>jobs := (jobs d)(job_id := map_option f (jobs d job_id))\<rparr>"

text \<open>\<^verbatim>\<open>d[key] = d.get(key, 0) + n\<close> on a dict, and on a table
  \<^verbatim>\<open>INSERT ... ON CONFLICT(...) DO UPDATE SET count = count + ?\<close>.\<close>

fun bump :: "'k \<Rightarrow> nat \<Rightarrow> ('k \<times> nat) list \<Rightarrow> ('k \<times> nat) list" where
  "bump k n [] = [(k, n)]"
| "bump k n ((k', c) # xs) = (if k' = k then (k', c + n) # xs else (k', c) # bump k n xs)"

definition upsert_all :: "('k \<times> nat) list \<Rightarrow> ('k \<times> nat) list \<Rightarrow> ('k \<times> nat) list" where
  "upsert_all batch tbl = fold (\<lambda>(k, n). bump k n) batch tbl"

text \<open>\<^verbatim>\<open>INSERT OR IGNORE INTO job_metadata\<close> under \<^verbatim>\<open>UNIQUE(job_id, type, value)\<close>.\<close>

definition insert_or_ignore :: "'a \<Rightarrow> 'a list \<Rightarrow> 'a list" where
  "insert_or_ignore x xs = (if x \<in> set xs then xs else xs @ [x])"

section \<open>update_summary_tables\<close>

record batches =
  class_level_batch :: counts
  service_level_batch :: counts
  timeline_batch :: counts
  class_service_batch :: counts
  invalid_timestamps :: nat

definition empty_batches :: batches where
  "empty_batches = \<lparr>class_level_batch = [], service_level_batch = [], timeline_batch = [],
     class_service_batch = [], invalid_timestamps = 0\<rparr>"

text \<open>The body of \<^verbatim>\<open>for log_entry in batch\<close>.  A \<^verbatim>\<open>ValueError\<close> of the third
  \<^verbatim>\<open>strptime\<close> is counted; any other exception leaves the loop.\<close>

definition summarize_entry :: "env \<Rightarrow> string \<Rightarrow> log_entry \<Rightarrow> batches \<Rightarrow> exn + batches" where
  "summarize_entry E job_id e B =
     (let level = e_level e; class_name = e_class e; service = e_service e;
          timestamp = e_logtime e;
          B1 = (if class_name \<noteq> [] \<and> level \<noteq> []
                then B\<lparr>class_level_batch := bump (job_id, class_name, level) 1 (class_level_batch B)\<rparr>
                else B);
          B2 = (if service \<noteq> [] \<and> level \<noteq> []
                then B1\<lparr>service_level_batch := bump (job_id, service, level) 1 (service_level_batch B1)\<rparr>
                else B1);
          cs = (\<lambda>B3. if class_name \<noteq> [] \<and> service \<noteq> []
                then B3\<lparr>class_service_batch := bump (job_id, class_name, service) 1 (class_service_batch B3)\<rparr>
                else B3)
      in if truthy timestamp \<and> level \<noteq> []
         then (case strptime_any E timestamp of
                 Inr hour \<Rightarrow>
                   Inr (cs (B2\<lparr>timeline_batch := bump (job_id, hour, level) 1 (timeline_batch B2)\<rparr>))
               | Inl x \<Rightarrow>
                   if x = ValueError
                   then Inr (cs (B2\<lparr>invalid_timestamps := invalid_timestamps B2 + 1\<rparr>))
                   else Inl x)
         else Inr (cs B2))"

fun summarize :: "env \<Rightarrow> string \<Rightarrow> log_entry list \<Rightarrow> batches \<Rightarrow> exn + batches" where
  "summarize E job_id [] B = Inr B"
| "summarize E job_id (e # es) B =
     (case summarize_entry E job_id e B of
        Inl x \<Rightarrow> Inl x
      | Inr B' \<Rightarrow> summarize E job_id es B')"

text \<open>The four upsert loops and \<^verbatim>\<open>conn.commit()\<close>; an exception of the first loop is logged
  and swallowed before anything was written.\<close>

definition update_summary_tables :: "env \<Rightarrow> string \<Rightarrow> log_entry list \<Rightarrow> state \<Rightarrow> state" where
  "update_summary_tables E job_id batch s =
     (case summarize E job_id batch empty_batches of
        Inl x \<Rightarrow> log_msg (Err_summary job_id x) s
      | Inr B \<Rightarrow>
          (let d = db s;
               d' = d\<lparr>class_level_counts := upsert_all (class_level_batch B) (class_level_counts d),
                      service_level_counts := upsert_all (service_level_batch B) (service_level_counts d),
                      timeline_counts := upsert_all (timeline_batch B) (timeline_counts d),
                      class_service_counts := upsert_all (class_service_batch B) (class_service_counts d)\<rparr>;
               s' = commit (s\<lparr>db := d'\<rparr>)
           in if invalid_timestamps B > 0
              then log_msg (Debug_invalid_ts job_id (invalid_timestamps B)) s'
              else s'))"


section \<open>process_log_file\<close>

text \<open>\<^verbatim>\<open>os.path.basename\<close> and \<^verbatim>\<open>os.path.dirname\<close> (posixpath).\<close>

definition basename :: "string \<Rightarrow> string" where
  "basename p = rev (takeWhile (\<lambda>c. c \<noteq> CHR ''/'') (rev p))"

definition dirname :: "string \<Rightarrow> string" where
  "dirname p =
     (let head = rev (dropWhile (\<lambda>c. c \<noteq> CHR ''/'') (rev p))
      in if head \<noteq> [] \<and> \<not> (\<forall>c \<in> set head. c = CHR ''/'')
         then rev (dropWhile (\<lambda>c. c = CHR ''/'') (rev head))
         else head)"

text \<open>
  The statements of the loop body between \<^verbatim>\<open>json.loads\<close> and the appends, on a decoded
  line.  The result tells whether \<^verbatim>\<open>missing_class_count\<close> and
  \<^verbatim>\<open>invalid_timestamp_count\<close> were incremented, and gives the entry or the exception that
  left the body.
\<close>

fun parse_fields :: "env \<Rightarrow> json \<Rightarrow> bool \<times> bool \<times> (exn + log_entry)" where
  "parse_fields E (JObj kvs) =
     (let timestamp = dict_get kvs ''logtime'' (JStr [])
      in case level_of (log_levels E) (dict_get kvs ''level'' (JStr ''UNKNOWN'')) of
           Inl x \<Rightarrow> (False, False, Inl x)
         | Inr level \<Rightarrow>
             (let class_field = dict_get kvs ''class'' JNull;
                  log_message = dict_get kvs ''log'' (JStr [])
              in case class_split class_field of
                   Inl x \<Rightarrow> (False, False, Inl x)
                 | Inr sc \<Rightarrow>
                     (let (service, class_name) =
                            (case sc of Some p \<Rightarrow> p | None \<Rightarrow> (''Unknown'', ''Unknown''));
                          missing = (sc = None);
                          entry = \<lparr>e_logtime = timestamp, e_level = level, e_class = class_name,
                                   e_service = service, e_log = log_message\<rparr>
                      in if truthy timestamp
                         then (case strptime_any E timestamp of
                                 Inr h \<Rightarrow> (missing, False, Inr entry)
                               | Inl x \<Rightarrow>
                                   if x = ValueError then (missing, True, Inr entry)
                                   else (missing, False, Inl x))
                         else (missing, False, Inr entry))))"
| "parse_fields E v = (False, False, Inl AttributeError)"

record locals =
  log_batch :: "log_row list"
  log_entries :: "log_entry list"
  classes :: "string list"
  services :: "string list"
  missing_class_count :: nat
  invalid_timestamp_count :: nat

definition init_locals :: locals where
  "init_locals = \<lparr>log_batch = [], log_entries = [], classes = [], services = [],
     missing_class_count = 0, invalid_timestamp_count = 0\<rparr>"

definition batch_size :: nat where
  "batch_size = 500"

definition make_row :: "string \<Rightarrow> string \<Rightarrow> nat \<Rightarrow> log_entry \<Rightarrow> log_row" where
  "make_row job_id file_path line_idx e =
     \<lparr>r_job_id = job_id, r_timestamp = e_logtime e, r_level = e_level e, r_class = e_class e,
      r_service = e_service e, r_log_message = e_log e, r_folder = dirname file_path,
      r_file_name = basename file_path, r_line_idx = line_idx\<rparr>"

text \<open>The block that both the loop and the code after it run on a batch:
  \<^verbatim>\<open>executemany\<close> into \<^verbatim>\<open>logs\<close>, \<^verbatim>\<open>update_summary_tables\<close>, the class and service names
  into \<^verbatim>\<open>job_metadata\<close>, \<^verbatim>\<open>conn.commit()\<close>.\<close>

definition flush :: "env \<Rightarrow> string \<Rightarrow> locals \<Rightarrow> state \<Rightarrow> state" where
  "flush E job_id L s =
     (let s1 = s\<lparr>db := (db s)\<lparr>logs := logs (db s) @ log_batch L\<rparr>\<rparr>;
          s2 = update_summary_tables E job_id (log_entries L) s1;
          md1 = fold (\<lambda>c. insert_or_ignore (job_id, ''class'', c)) (classes L)
                  (job_metadata (db s2));
          md2 = fold (\<lambda>c. insert_or_ignore (job_id, ''service'', c)) (services L) md1
      in commit (s2\<lparr>db := (db s2)\<lparr>job_metadata := md2\<rparr>\<rparr>))"

text \<open>What \<^verbatim>\<open>pause_job\<close> does to the job's row and registry entry once the job was found.\<close>

definition pause_core :: "string \<Rightarrow> database \<times> job_row \<Rightarrow> exn + database \<times> job_row" where
  "pause_core job_id dj =
     (case dj of (d, js) \<Rightarrow>
        if j_status js \<noteq> RUNNING then Inl (HTTPException 400)
        else Inr (update_job job_id (\<lambda>r. r\<lparr>j_status := PAUSED\<rparr>) d, js\<lparr>j_status := PAUSED\<rparr>))"

text \<open>\<^verbatim>\<open>await asyncio.sleep(0)\<close>: when the surroundings serve a pause request here,
  \<^verbatim>\<open>pause_job\<close> runs on its own connection and commits.\<close>

definition yield_point :: "env \<Rightarrow> string \<Rightarrow> string \<Rightarrow> nat \<Rightarrow> state \<Rightarrow> state" where
  "yield_point E job_id file_path line_idx s =
     (if pause_at E file_path line_idx
      then (case pause_core job_id (db s, reg s) of
              Inl x \<Rightarrow> s
            | Inr (d, js) \<Rightarrow> commit (s\<lparr>db := d, reg := js\<rparr>))
      else s)"

text \<open>One turn of \<^verbatim>\<open>for line_idx, line in enumerate(lines)\<close> with its two handlers.\<close>

definition line_step ::
  "env \<Rightarrow> string \<Rightarrow> string \<Rightarrow> nat \<times> raw_line \<Rightarrow> locals \<times> state \<Rightarrow> locals \<times> state" where
  "line_step E job_id file_path il Ls =
     (case (il, Ls) of ((line_idx, line), (L, s)) \<Rightarrow>
        (case line of
           None \<Rightarrow> (L, log_msg (Warn_invalid_json file_path line_idx) s)
         | Some v \<Rightarrow>
             (case parse_fields E v of (missing, invalid, r) \<Rightarrow>
                (let L1 = L\<lparr>missing_class_count := missing_class_count L + (if missing then 1 else 0),
                            invalid_timestamp_count :=
                              invalid_timestamp_count L + (if invalid then 1 else 0)\<rparr>
                 in case r of
                      Inl x \<Rightarrow> (L1, log_msg (Err_line file_path line_idx x) s)
                    | Inr e \<Rightarrow>
                        (let L2 = L1\<lparr>log_batch := log_batch L1 @ [make_row job_id file_path line_idx e],
                                    log_entries := log_entries L1 @ [e],
                                    classes := List.insert (e_class e) (classes L1),
                                    services := List.insert (e_service e) (services L1)\<rparr>
                         in if length (log_batch L2) \<ge> batch_size
                            then (L2\<lparr>log_batch := [], log_entries := [], classes := [], services := []\<rparr>,
                                  yield_point E job_id file_path line_idx (flush E job_id L2 s))
                            else (L2, s))))))"

definition process_lines ::
  "env \<Rightarrow> string \<Rightarrow> string \<Rightarrow> (nat \<times> raw_line) list \<Rightarrow> locals \<times> state \<Rightarrow> locals \<times> state" where
  "process_lines E job_id file_path ils Ls = fold (line_step E job_id file_path) ils Ls"

text \<open>
  \<^verbatim>\<open>process_log_file\<close>.  An exception of the stream leaves the function through the outer
  handler, which logs and re-raises; so does the \<^verbatim>\<open>IntegrityError\<close> of the marker's plain
  \<^verbatim>\<open>INSERT\<close> when the row exists.  The decorator \<^verbatim>\<open>@retry\<close> sees only the creation of the
  coroutine and never retries.
\<close>

definition process_log_file :: "env \<Rightarrow> string \<Rightarrow> string \<Rightarrow> state \<Rightarrow> exn option \<times> state" where
  "process_log_file E file_path job_id s =
     (case read_file E file_path of (lines, fails) \<Rightarrow>
        (case process_lines E job_id file_path (enumerate 0 lines) (init_locals, s) of (L, s1) \<Rightarrow>
           if fails then (Some IOError, log_msg (Err_file file_path IOError) s1)
           else
             (let s2 = (if log_batch L \<noteq> [] then flush E job_id L s1 else s1);
                  marker = (job_id, ''processed_file'', file_path)
              in if marker \<in> set (job_metadata (db s2))
                 then (Some IntegrityError, log_msg (Err_file file_path IntegrityError) s2)
                 else (None,
                       log_msg (Info_processed file_path job_id (missing_class_count L)
                                  (invalid_timestamp_count L))
                         (commit (s2\<lparr>db := (db s2)\<lparr>job_metadata :=
                                     job_metadata (db s2) @ [marker]\<rparr>\<rparr>))))))"


section \<open>LogProcessor.parse_log_line\<close>

text \<open>The dict that \<^verbatim>\<open>parse_log_line\<close> returns; the level is whatever the line carried.\<close>

record parsed_line =
  p_logtime :: json
  p_level :: json
  p_class :: string
  p_service :: string
  p_log :: json

text \<open>\<open>None\<close> is the \<^verbatim>\<open>return None\<close> of either handler.  A timestamp that no format accepts
  is replaced by the empty string.\<close>

fun parse_log_line :: "env \<Rightarrow> raw_line \<Rightarrow> parsed_line option" where
  "parse_log_line E None = None"
| "parse_log_line E (Some (JObj kvs)) =
     (let timestamp = dict_get kvs ''logtime'' (JStr []);
          level = dict_get kvs ''level'' (JStr ''UNKNOWN'');
          class_field = dict_get kvs ''class'' JNull;
          log_message = dict_get kvs ''log'' (JStr [])
      in case class_split class_field of
           Inl x \<Rightarrow> None
         | Inr sc \<Rightarrow>
             (let (service, class_name) =
                    (case sc of Some p \<Rightarrow> p | None \<Rightarrow> (''Unknown'', ''Unknown''));
                  result = (\<lambda>t. \<lparr>p_logtime = t, p_level = level, p_class = class_name,
                                  p_service = service, p_log = log_message\<rparr>)
              in if truthy timestamp
                 then (case strptime_any E timestamp of
                         Inr h \<Rightarrow> Some (result timestamp)
                       | Inl x \<Rightarrow> if x = ValueError then Some (result (JStr [])) else None)
                 else Some (result timestamp)))"
| "parse_log_line E (Some v) = None"


section \<open>generate_s3_paths\<close>

text \<open>
  \<^verbatim>\<open>datetime.strptime(s, '%Y%m%d-%H')\<close> matches \<open>s\<close> from its start against the regular
  expression
  \<^verbatim>\<open>(?P<Y>\d\d\d\d)(?P<m>1[0-2]|0[1-9]|[1-9])(?P<d>3[0-1]|[1-2]\d|0[1-9]|[1-9]| [1-9])-(?P<H>2[0-3]|[0-1]\d|\d)\<close>,
  takes the first match in the order of the alternatives, and raises \<^verbatim>\<open>ValueError\<close> when
  there is none, when text remains after it, or when the fields are no date.  Each group
  below lists its matches, value and remaining text, in that order.  Digits are the ASCII
  digits.
\<close>

definition digits :: string where
  "digits = ''0123456789''"

definition digit_val :: "char \<Rightarrow> nat" where
  "digit_val c = of_char c - 48"

definition two_chars :: "string \<Rightarrow> string \<Rightarrow> string \<Rightarrow> (nat \<times> string) list" where
  "two_chars as bs s =
     (case s of
        a # b # r \<Rightarrow> if a \<in> set as \<and> b \<in> set bs then [(10 * digit_val a + digit_val b, r)] else []
      | _ \<Rightarrow> [])"

definition one_char :: "string \<Rightarrow> string \<Rightarrow> (nat \<times> string) list" where
  "one_char as s = (case s of a # r \<Rightarrow> if a \<in> set as then [(digit_val a, r)] else [] | _ \<Rightarrow> [])"

definition space_digit :: "string \<Rightarrow> (nat \<times> string) list" where
  "space_digit s =
     (case s of
        a # b # r \<Rightarrow> if a = CHR '' '' \<and> b \<in> set ''123456789'' then [(digit_val b, r)] else []
      | _ \<Rightarrow> [])"

definition re_Y :: "string \<Rightarrow> (nat \<times> string) list" where
  "re_Y s =
     (case s of
        a # b # c # d # r \<Rightarrow>
          if a \<in> set digits \<and> b \<in> set digits \<and> c \<in> set digits \<and> d \<in> set digits
          then [(1000 * digit_val a + 100 * digit_val b + 10 * digit_val c + digit_val d, r)]
          else []
      | _ \<Rightarrow> [])"

definition re_m :: "string \<Rightarrow> (nat \<times> string) list" where
  "re_m s = two_chars ''1'' ''012'' s @ two_chars ''0'' ''123456789'' s @ one_char ''123456789'' s"

definition re_d :: "string \<Rightarrow> (nat \<times> string) list" where
  "re_d s = two_chars ''3'' ''01'' s @ two_chars ''12'' digits s @ two_chars ''0'' ''123456789'' s
              @ one_char ''123456789'' s @ space_digit s"

definition re_H :: "string \<Rightarrow> (nat \<times> string) list" where
  "re_H s = two_chars ''2'' ''0123'' s @ two_chars ''01'' digits s @ one_char digits s"

definition re_dash :: "string \<Rightarrow> string list" where
  "re_dash s = (case s of c # r \<Rightarrow> if c = CHR ''-'' then [r] else [] | [] \<Rightarrow> [])"

definition match_ymdh :: "string \<Rightarrow> ((nat \<times> nat \<times> nat \<times> nat) \<times> string) list" where
  "match_ymdh s =
     List.bind (re_Y s) (\<lambda>(y, r1).
     List.bind (re_m r1) (\<lambda>(m, r2).
     List.bind (re_d r2) (\<lambda>(d, r3).
     List.bind (re_dash r3) (\<lambda>r4.
     map (\<lambda>(h, r5). ((y, m, d, h), r5)) (re_H r4)))))"

definition leap_year :: "nat \<Rightarrow> bool" where
  "leap_year y = (y mod 4 = 0 \<and> (y mod 100 \<noteq> 0 \<or> y mod 400 = 0))"

definition days_in_month :: "nat \<Rightarrow> nat \<Rightarrow> nat" where
  "days_in_month y m =
     (if m = 2 then (if leap_year y then 29 else 28)
      else if m \<in> {4, 6, 9, 11} then 30 else 31)"

definition days_before_year :: "nat \<Rightarrow> nat" where
  "days_before_year y = 365 * (y - 1) + (y - 1) div 4 - (y - 1) div 100 + (y - 1) div 400"

definition days_before_month :: "nat \<Rightarrow> nat \<Rightarrow> nat" where
  "days_before_month y m =
     sum_list (map (days_in_month y) (take (m - 1) [1, 2, 3, 4, 5, 6, 7, 8, 9, 10, 11, 12]))"

text \<open>A \<^verbatim>\<open>datetime\<close> on the hour is the number of hours since 0001-01-01 00:00; comparison
  and the addition of \<^verbatim>\<open>timedelta(hours=1)\<close> are those of the numbers.\<close>

definition datetime_hours :: "nat \<Rightarrow> nat \<Rightarrow> nat \<Rightarrow> nat \<Rightarrow> nat" where
  "datetime_hours y m d h = (days_before_year y + days_before_month y m + (d - 1)) * 24 + h"

text \<open>\<^verbatim>\<open>datetime.max\<close>, cut to the hour: 9999-12-31 23:00.\<close>

definition max_hours :: nat where
  "max_hours = datetime_hours 9999 12 31 23"

text \<open>On \<^verbatim>\<open>None\<close> (a job resumed without its parameters) \<^verbatim>\<open>strptime\<close> raises
  \<^verbatim>\<open>TypeError\<close>.\<close>

definition strptime_ymdh :: "string option \<Rightarrow> exn + nat" where
  "strptime_ymdh so =
     (case so of
        None \<Rightarrow> Inl TypeError
      | Some s \<Rightarrow>
          (case match_ymdh s of
             [] \<Rightarrow> Inl ValueError
           | ((y, m, d, h), rest) # _ \<Rightarrow>
               if rest \<noteq> [] then Inl ValueError
               else if y < 1 \<or> d > days_in_month y m then Inl ValueError
               else Inr (datetime_hours y m d h)))"

text \<open>An f-string renders \<^verbatim>\<open>None\<close> as the text \<^verbatim>\<open>None\<close>.\<close>

definition py_str :: "string option \<Rightarrow> string" where
  "py_str so = (case so of None \<Rightarrow> ''None'' | Some s \<Rightarrow> s)"

text \<open>The \<^verbatim>\<open>while current_dt <= end_dt\<close> loop.  Adding an hour to the last hour of the
  year 9999 raises \<^verbatim>\<open>OverflowError\<close>.\<close>

function paths_loop :: "env \<Rightarrow> string option \<Rightarrow> nat \<Rightarrow> nat \<Rightarrow> string list \<Rightarrow> exn + string list" where
  "paths_loop E customer_folder current_dt end_dt paths =
     (if current_dt \<le> end_dt
      then (let paths' = paths @ [py_str customer_folder @ ''/'' @ strftime_ymdh E current_dt @ ''/'']
            in if current_dt + 1 > max_hours then Inl OverflowError
               else paths_loop E customer_folder (current_dt + 1) end_dt paths')
      else Inr paths)"
  by pat_completeness auto
termination
  by (relation "measure (\<lambda>(E, c, current_dt, end_dt, paths). end_dt + 1 - current_dt)") auto

declare paths_loop.simps [simp del]

text \<open>The two handlers: \<^verbatim>\<open>ValueError\<close> becomes the response 400, anything else 500.\<close>

definition http_of :: "exn \<Rightarrow> exn" where
  "http_of x = (if x = ValueError then HTTPException 400 else HTTPException 500)"

definition generate_s3_paths ::
  "env \<Rightarrow> string option \<Rightarrow> string option \<Rightarrow> string option \<Rightarrow> exn + string list" where
  "generate_s3_paths E customer_folder start_datetime end_datetime =
     (case strptime_ymdh start_datetime of
        Inl x \<Rightarrow> Inl (http_of x)
      | Inr start_dt \<Rightarrow>
          (case strptime_ymdh end_datetime of
             Inl x \<Rightarrow> Inl (http_of x)
           | Inr end_dt \<Rightarrow>
               if start_dt > end_dt then Inl (http_of ValueError)
               else (case paths_loop E customer_folder start_dt end_dt [] of
                       Inl x \<Rightarrow> Inl (http_of x)
                     | Inr paths \<Rightarrow> Inr paths)))"

section \<open>process_job\<close>

text \<open>\<^verbatim>\<open>os.path.join(root, file)\<close> for a file name without a slash.\<close>

definition path_join :: "string \<Rightarrow> string \<Rightarrow> string" where
  "path_join dir file =
     (if dir = [] \<or> last dir = CHR ''/'' then dir @ file else dir @ ''/'' @ file)"

definition endswith_gz :: "string \<Rightarrow> bool" where
  "endswith_gz file = (length file \<ge> 3 \<and> drop (length file - 3) file = ''.gz'')"

definition bucket_url :: string where
  "bucket_url = ''s3://k8-customer-logs/''"

datatype enumeration = Invalid_source | Enum_raised exn | Files "string list" string

text \<open>The two branches that build \<^verbatim>\<open>log_files\<close> and \<^verbatim>\<open>folder_path_display\<close>.  A failed
  listing of one prefix is skipped.\<close>

definition enumerate_files ::
  "env \<Rightarrow> string option \<Rightarrow> string option \<Rightarrow> string option \<Rightarrow> string option \<Rightarrow> enumeration" where
  "enumerate_files E folder_path customer_folder start_datetime end_datetime =
     (if folder_path \<noteq> None \<and> folder_path \<noteq> Some []
      then (let p = the folder_path
            in if \<not> is_dir E p then Invalid_source
               else Files (map (\<lambda>(dir, file). path_join dir file)
                             (filter (\<lambda>(dir, file). endswith_gz file) (walk E p))) p)
      else (case validate_customer_folder E customer_folder of
              Inl x \<Rightarrow> Enum_raised x
            | Inr False \<Rightarrow> Invalid_source
            | Inr True \<Rightarrow>
                (case generate_s3_paths E customer_folder start_datetime end_datetime of
                   Inl x \<Rightarrow> Enum_raised x
                 | Inr s3_paths \<Rightarrow>
                     Files (concat (map (\<lambda>s3_path.
                                      case list_s3_files E s3_path of
                                        Inl x \<Rightarrow> []
                                      | Inr files \<Rightarrow> map (\<lambda>f. bucket_url @ f) files) s3_paths))
                           (bucket_url @ py_str customer_folder))))"

text \<open>
  The handler \<^verbatim>\<open>except Exception\<close> of \<open>process_job\<close>.  Where the connection was closed
  before the exception was raised, the handler's own \<^verbatim>\<open>conn.execute\<close> raises
  \<^verbatim>\<open>ProgrammingError\<close> after the registry entry was set to \<open>ERROR\<close>.
\<close>

definition error_handler :: "string \<Rightarrow> bool \<Rightarrow> exn \<Rightarrow> state \<Rightarrow> exn option \<times> state" where
  "error_handler job_id conn_closed x s =
     (let s1 = s\<lparr>reg := (reg s)\<lparr>j_status := ERROR\<rparr>\<rparr>
      in if conn_closed then (Some ProgrammingError, s1)
         else (Some x,
               commit (s1\<lparr>db := update_job job_id
                          (\<lambda>r. r\<lparr>j_status := ERROR,
                                  j_files_processed := j_files_processed (reg s1),
                                  j_total_files := j_total_files (reg s1)\<rparr>) (db s1)\<rparr>)))"

text \<open>The block run for a folder that is no directory and for a customer folder that the
  bucket does not have.\<close>

definition invalid_source :: "string \<Rightarrow> state \<Rightarrow> exn option \<times> state" where
  "invalid_source job_id s =
     (let s1 = commit (s\<lparr>db := update_job job_id
                          (\<lambda>r. r\<lparr>j_status := ERROR, j_total_files := 0, j_files_processed := 0\<rparr>)
                          (db s)\<rparr>);
          s2 = s1\<lparr>reg := (reg s1)\<lparr>j_status := ERROR, j_files_processed := 0, j_total_files := 0\<rparr>\<rparr>
      in error_handler job_id True (HTTPException 400) s2)"

text \<open>\<^verbatim>\<open>SELECT value FROM job_metadata WHERE job_id = ? AND type = 'processed_file'\<close>.\<close>

definition processed_files :: "string \<Rightarrow> database \<Rightarrow> string list" where
  "processed_files job_id d =
     map (\<lambda>(j, t, v). v) (filter (\<lambda>(j, t, v). j = job_id \<and> t = ''processed_file'') (job_metadata d))"

datatype loop_end = Done | Paused | Raised exn

text \<open>\<^verbatim>\<open>for idx, file_path in enumerate(log_files)\<close>; \<open>processed\<close> is the set read before the
  loop.\<close>

fun file_loop :: "env \<Rightarrow> string \<Rightarrow> string list \<Rightarrow> string set \<Rightarrow> state \<Rightarrow> loop_end \<times> state" where
  "file_loop E job_id [] processed s = (Done, s)"
| "file_loop E job_id (file_path # rest) processed s =
     (if file_path \<in> processed then file_loop E job_id rest processed s
      else if j_status (reg s) = PAUSED
      then (Paused,
            commit (s\<lparr>db := update_job job_id
                       (\<lambda>r. r\<lparr>j_status := PAUSED, j_files_processed := j_files_processed (reg s)\<rparr>)
                       (db s)\<rparr>))
      else (case process_log_file E file_path job_id s of
              (Some x, s1) \<Rightarrow> (Raised x, s1)
            | (None, s1) \<Rightarrow>
                (let s2 = s1\<lparr>reg := (reg s1)\<lparr>j_files_processed := j_files_processed (reg s1) + 1\<rparr>\<rparr>;
                     s3 = commit (s2\<lparr>db := update_job job_id
                                    (\<lambda>r. r\<lparr>j_files_processed := j_files_processed (reg s2),
                                            j_current_file := basename file_path\<rparr>) (db s2)\<rparr>)
                 in file_loop E job_id rest processed s3)))"

text \<open>\<open>process_job\<close>: \<open>None\<close> when the coroutine returns, the exception when it raises.\<close>

definition process_job ::
  "env \<Rightarrow> string \<Rightarrow> string option \<Rightarrow> string option \<Rightarrow> string option \<Rightarrow> string option
     \<Rightarrow> state \<Rightarrow> exn option \<times> state" where
  "process_job E job_id folder_path customer_folder start_datetime end_datetime s =
     (case enumerate_files E folder_path customer_folder start_datetime end_datetime of
        Invalid_source \<Rightarrow> invalid_source job_id s
      | Enum_raised x \<Rightarrow> error_handler job_id False x s
      | Files log_files folder_path_display \<Rightarrow>
          (let total_files = length log_files
           in if total_files = 0
              then (None,
                    (commit (s\<lparr>db := update_job job_id
                               (\<lambda>r. r\<lparr>j_status := COMPLETED, j_total_files := 0,
                                       j_files_processed := 0\<rparr>) (db s)\<rparr>))
                      \<lparr>reg := (reg s)\<lparr>j_status := COMPLETED, j_files_processed := 0,
                                     j_total_files := 0\<rparr>\<rparr>)
              else
                (let processed = set (processed_files job_id (db s));
                     files_processed = card processed;
                     s1 = commit (s\<lparr>db := update_job job_id
                                    (\<lambda>r. r\<lparr>j_status := RUNNING, j_total_files := total_files,
                                            j_files_processed := files_processed\<rparr>) (db s)\<rparr>);
                     s2 = s1\<lparr>reg := (reg s1)\<lparr>j_total_files := total_files,
                                              j_files_processed := files_processed,
                                              j_folder_path := folder_path_display\<rparr>\<rparr>
                 in case file_loop E job_id log_files processed s2 of
                      (Raised x, s3) \<Rightarrow> error_handler job_id False x s3
                    | (Paused, s3) \<Rightarrow> (None, s3)
                    | (Done, s3) \<Rightarrow>
                        (let s4 = s3\<lparr>reg := (reg s3)\<lparr>j_status := COMPLETED\<rparr>\<rparr>
                         in (None,
                             commit (s4\<lparr>db := update_job job_id
                                       (\<lambda>r. r\<lparr>j_status := COMPLETED,
                                               j_files_processed := j_files_processed (reg s4),
                                               j_total_files := total_files\<rparr>) (db s4)\<rparr>))))))"

section \<open>The endpoints start, pause and resume\<close>

text \<open>The process between requests: the committed database and the registry
  \<^verbatim>\<open>job_states\<close>.\<close>

record world =
  w_db :: database
  job_states :: "string \<rightharpoonup> job_row"

record start_job_request =
  q_folder_path :: "string option"
  q_customer_folder :: "string option"
  q_start_datetime :: "string option"
  q_end_datetime :: "string option"

text \<open>The arguments of a \<^verbatim>\<open>process_job\<close> task handed to \<^verbatim>\<open>asyncio.create_task\<close>.\<close>

datatype task =
  Process_job string "string option" "string option" "string option" "string option"

definition given :: "string option \<Rightarrow> bool" where
  "given so = (so \<noteq> None \<and> so \<noteq> Some [])"

text \<open>\<open>start_job\<close>, with the clock reading \<open>start_time\<close> as an argument.  A second row with
  the same \<^verbatim>\<open>job_id\<close> violates the primary key.\<close>

definition start_job :: "string \<Rightarrow> start_job_request \<Rightarrow> world \<Rightarrow> (exn + task) \<times> world" where
  "start_job start_time q w =
     (let local = (given (q_folder_path q) \<and> \<not> (given (q_customer_folder q) \<or>
                     given (q_start_datetime q) \<or> given (q_end_datetime q)));
          bucket = (given (q_customer_folder q) \<and> given (q_start_datetime q) \<and>
                     given (q_end_datetime q))
      in if \<not> local \<and> \<not> bucket then (Inl (HTTPException 400), w)
         else if \<not> local \<and> (isl (strptime_ymdh (q_start_datetime q)) \<or>
                              isl (strptime_ymdh (q_end_datetime q)))
         then (Inl (HTTPException 400), w)
         else
           (let job_id = (if local then basename (the (q_folder_path q)) @ ''_'' @ start_time
                          else the (q_customer_folder q) @ ''_'' @ start_time);
                folder_path_display = (if local then the (q_folder_path q)
                                       else bucket_url @ the (q_customer_folder q));
                row = \<lparr>j_folder_path = folder_path_display, j_status = RUNNING,
                        j_files_processed = 0, j_total_files = 0, j_current_file = []\<rparr>;
                w1 = w\<lparr>job_states := (job_states w)(job_id \<mapsto> row)\<rparr>
            in if jobs (w_db w) job_id \<noteq> None
               then (Inl (HTTPException 500),
                     w1\<lparr>job_states := (job_states w1)(job_id \<mapsto> row\<lparr>j_status := ERROR\<rparr>)\<rparr>)
               else
                 (let d1 = (w_db w)\<lparr>jobs := (jobs (w_db w))(job_id \<mapsto> row)\<rparr>;
                      d2 = (if bucket
                            then d1\<lparr>job_metadata :=
                                      insert_or_ignore (job_id, ''end_datetime'', the (q_end_datetime q))
                                        (insert_or_ignore
                                           (job_id, ''start_datetime'', the (q_start_datetime q))
                                           (job_metadata d1))\<rparr>
                            else d1)
                  in (Inr (Process_job job_id (q_folder_path q) (q_customer_folder q)
                             (q_start_datetime q) (q_end_datetime q)),
                      w1\<lparr>w_db := d2\<rparr>))))"

definition pause_job :: "string \<Rightarrow> world \<Rightarrow> (exn + unit) \<times> world" where
  "pause_job job_id w =
     (case job_states w job_id of
        None \<Rightarrow> (Inl (HTTPException 404), w)
      | Some js \<Rightarrow>
          (case pause_core job_id (w_db w, js) of
             Inl x \<Rightarrow> (Inl x, w)
           | Inr (d, js') \<Rightarrow> (Inr (), w\<lparr>w_db := d, job_states := (job_states w)(job_id \<mapsto> js')\<rparr>)))"

definition startswith :: "string \<Rightarrow> string \<Rightarrow> bool" where
  "startswith s p = (take (length p) s = p)"

text \<open>
  \<open>resume_job\<close>.  Every exception raised inside its \<^verbatim>\<open>try\<close>, the two
  \<^verbatim>\<open>HTTPException\<close>s included, is caught by \<^verbatim>\<open>except Exception\<close> and answered with the
  response 500; the registry entry was set to \<open>RUNNING\<close> before.
\<close>

definition resume_job :: "string \<Rightarrow> world \<Rightarrow> (exn + task) \<times> world" where
  "resume_job job_id w =
     (case job_states w job_id of
        None \<Rightarrow> (Inl (HTTPException 404), w)
      | Some js \<Rightarrow>
          if j_status js \<noteq> PAUSED then (Inl (HTTPException 400), w)
          else
            (let w1 = w\<lparr>job_states := (job_states w)(job_id \<mapsto> js\<lparr>j_status := RUNNING\<rparr>)\<rparr>
             in case jobs (w_db w1) job_id of
                  None \<Rightarrow> (Inl (HTTPException 500), w1)
                | Some row \<Rightarrow>
                    (let folder_path = j_folder_path row
                     in if startswith folder_path bucket_url then (Inl (HTTPException 500), w1)
                        else (Inr (Process_job job_id
                                     (if \<not> startswith folder_path ''s3://'' then Some folder_path
                                      else None)
                                     None None None),
                              w1\<lparr>w_db := update_job job_id (\<lambda>r. r\<lparr>j_status := RUNNING\<rparr>)
                                           (w_db w1)\<rparr>))))"

text \<open>Running a task on the world: the task works on the job's registry entry, which the
  endpoint that created the task has written.\<close>

definition run_task :: "env \<Rightarrow> task \<Rightarrow> world \<Rightarrow> (exn option \<times> state) option" where
  "run_task E t w =
     (case t of Process_job job_id folder_path customer_folder start_datetime end_datetime \<Rightarrow>
        (case job_states w job_id of
           None \<Rightarrow> None
         | Some js \<Rightarrow>
             Some (process_job E job_id folder_path customer_folder start_datetime end_datetime
                     \<lparr>db = w_db w, durable = [w_db w], reg = js, logger = []\<rparr>)))"


section \<open>Reading the tables\<close>

text \<open>The sum of the counts of the rows whose key satisfies \<open>P\<close>; with it
  \<^verbatim>\<open>SELECT SUM(count) FROM t WHERE job_id = ?\<close> and the count stored under one key.\<close>

definition wsum :: "(string \<times> string \<times> string \<Rightarrow> bool) \<Rightarrow> counts \<Rightarrow> nat" where
  "wsum P tbl = sum_list (map snd (filter (\<lambda>(k, n). P k) tbl))"

definition table_total :: "string \<Rightarrow> counts \<Rightarrow> nat" where
  "table_total job_id tbl = wsum (\<lambda>k. fst k = job_id) tbl"

definition count_of :: "counts \<Rightarrow> string \<times> string \<times> string \<Rightarrow> nat" where
  "count_of tbl k = wsum (\<lambda>k'. k' = k) tbl"

text \<open>\<^verbatim>\<open>SELECT * FROM logs WHERE job_id = ?\<close>.\<close>

definition job_rows :: "string \<Rightarrow> database \<Rightarrow> log_row list" where
  "job_rows job_id d = filter (\<lambda>r. r_job_id r = job_id) (logs d)"

text \<open>A stored timestamp parses when it is a non-empty string that one of the three formats
  accepts.\<close>

definition parses :: "env \<Rightarrow> json \<Rightarrow> bool" where
  "parses E ts = (case ts of JStr t \<Rightarrow> t \<noteq> [] \<and> hour_of E t \<noteq> None | _ \<Rightarrow> False)"

text \<open>The entry that a row of \<^verbatim>\<open>logs\<close> was made from.\<close>

definition row_entry :: "log_row \<Rightarrow> log_entry" where
  "row_entry r = \<lparr>e_logtime = r_timestamp r, e_level = r_level r, e_class = r_class r,
     e_service = r_service r, e_log = r_log_message r\<rparr>"

datatype table_name = Class_level | Service_level | Timeline | Class_service

fun table_of :: "table_name \<Rightarrow> database \<Rightarrow> counts" where
  "table_of Class_level d = class_level_counts d"
| "table_of Service_level d = service_level_counts d"
| "table_of Timeline d = timeline_counts d"
| "table_of Class_service d = class_service_counts d"

fun batch_of :: "table_name \<Rightarrow> batches \<Rightarrow> counts" where
  "batch_of Class_level B = class_level_batch B"
| "batch_of Service_level B = service_level_batch B"
| "batch_of Timeline B = timeline_batch B"
| "batch_of Class_service B = class_service_batch B"

text \<open>The keys that one entry adds to in each of the four tables: none or one.\<close>

fun entry_keys :: "env \<Rightarrow> table_name \<Rightarrow> string \<Rightarrow> log_entry \<Rightarrow> (string \<times> string \<times> string) list" where
  "entry_keys E Class_level job_id e =
     (if e_class e \<noteq> [] \<and> e_level e \<noteq> [] then [(job_id, e_class e, e_level e)] else [])"
| "entry_keys E Service_level job_id e =
     (if e_service e \<noteq> [] \<and> e_level e \<noteq> [] then [(job_id, e_service e, e_level e)] else [])"
| "entry_keys E Timeline job_id e =
     (if e_level e \<noteq> [] \<and> parses E (e_logtime e)
      then (case e_logtime e of
              JStr t \<Rightarrow> (case hour_of E t of Some h \<Rightarrow> [(job_id, h, e_level e)] | None \<Rightarrow> [])
            | _ \<Rightarrow> [])
      else [])"
| "entry_keys E Class_service job_id e =
     (if e_class e \<noteq> [] \<and> e_service e \<noteq> [] then [(job_id, e_class e, e_service e)] else [])"

definition row_keys :: "env \<Rightarrow> table_name \<Rightarrow> log_row \<Rightarrow> (string \<times> string \<times> string) list" where
  "row_keys E T r = entry_keys E T (r_job_id r) (row_entry r)"

text \<open>An entry on which \<^verbatim>\<open>strptime\<close> cannot raise \<^verbatim>\<open>TypeError\<close>: its timestamp is false or a
  string.\<close>

definition ts_ok :: "log_entry \<Rightarrow> bool" where
  "ts_ok e = (\<not> truthy (e_logtime e) \<or> (case e_logtime e of JStr t \<Rightarrow> True | _ \<Rightarrow> False))"

text \<open>The rows that the lines of a file give, in line order.\<close>

definition parsed :: "env \<Rightarrow> string \<Rightarrow> string \<Rightarrow> (nat \<times> raw_line) list \<Rightarrow> log_row list" where
  "parsed E job_id file_path ils =
     concat (map (\<lambda>(line_idx, line).
                    case line of
                      None \<Rightarrow> []
                    | Some v \<Rightarrow> (case snd (snd (parse_fields E v)) of
                                   Inl x \<Rightarrow> []
                                 | Inr e \<Rightarrow> [make_row job_id file_path line_idx e])) ils)"

text \<open>Each summary table holds, under every selection of keys, as many counts as the rows
  of \<^verbatim>\<open>logs\<close> give keys of that selection.\<close>

definition tallied :: "env \<Rightarrow> database \<Rightarrow> bool" where
  "tallied E d =
     (\<forall>T P. wsum P (table_of T d) = length (filter P (concat (map (row_keys E T) (logs d)))))"

text \<open>The pending batch of the loop: \<^verbatim>\<open>log_entries\<close> holds the entries of the rows in
  \<^verbatim>\<open>log_batch\<close>, all of the job, none with a timestamp that can raise.\<close>

definition batch_inv :: "string \<Rightarrow> locals \<Rightarrow> bool" where
  "batch_inv job_id L =
     (map row_entry (log_batch L) = log_entries L \<and>
      (\<forall>r \<in> set (log_batch L). r_job_id r = job_id) \<and>
      (\<forall>e \<in> set (log_entries L). ts_ok e))"

text \<open>Database \<open>d\<close> is database \<open>b\<close> with the rows \<open>rows\<close> appended to \<^verbatim>\<open>logs\<close> and tallied in
  the summary tables, with the same files marked as processed and the same rows in
  \<^verbatim>\<open>jobs\<close> up to their status.\<close>

definition extends :: "env \<Rightarrow> database \<Rightarrow> log_row list \<Rightarrow> database \<Rightarrow> bool" where
  "extends E b rows d =
     (logs d = logs b @ rows \<and>
      (\<forall>T P. wsum P (table_of T d) =
               wsum P (table_of T b) + length (filter P (concat (map (row_keys E T) rows)))) \<and>
      (\<forall>j. processed_files j d = processed_files j b) \<and>
      (\<forall>j. map_option (\<lambda>r. r\<lparr>j_status := RUNNING\<rparr>) (jobs d j) =
           map_option (\<lambda>r. r\<lparr>j_status := RUNNING\<rparr>) (jobs b j)))"

text \<open>The rows that a file gives.\<close>

definition file_rows :: "env \<Rightarrow> string \<Rightarrow> string \<Rightarrow> log_row list" where
  "file_rows E job_id file_path = parsed E job_id file_path (enumerate 0 (fst (read_file E file_path)))"

section \<open>Inputs used in the examples\<close>

text \<open>A state with its log emptied.\<close>

definition nolog :: "state \<Rightarrow> state" where
  "nolog s = s\<lparr>logger := []\<rparr>"

text \<open>A stand-in for the timestamp function: it gives the hour of the two timestamps used
  in the examples, as the library does, and accepts nothing else.\<close>

definition example_hour_of :: "string \<Rightarrow> string option" where
  "example_hour_of t =
     (if t = ''2024-01-01 10:00:00'' \<or> t = ''2024-01-01 10:30:00''
      then Some ''2024-01-01 10:00:00'' else None)"

text \<open>Four lines: a record, a line that is no JSON, a record whose class field ends in a dot,
  a record without a class field.\<close>

definition example_lines :: "raw_line list" where
  "example_lines =
     [Some (JObj [(''logtime'', JStr ''2024-01-01 10:00:00''), (''level'', JStr ''ERROR''),
                  (''class'', JStr ''svcA.ClassX''), (''log'', JStr ''boom'')]),
      None,
      Some (JObj [(''level'', JStr ''INFO''), (''class'', JStr ''svcA.''), (''log'', JStr ''x'')]),
      Some (JObj [(''level'', JStr ''INFO''), (''log'', JStr ''no class field'')])]"

text \<open>A tree \<^verbatim>\<open>logs\<close> with the two files \<^verbatim>\<open>logs/a.gz\<close> and \<^verbatim>\<open>logs/b.gz\<close>; no pause request.\<close>

definition example_env :: env where
  "example_env = \<lparr>log_levels = [''INFO'', ''ERROR''], hour_of = example_hour_of,
     read_file = (\<lambda>f. if f = ''logs/a.gz'' then (example_lines, False)
                      else if f = ''logs/b.gz''
                      then ([Some (JObj [(''level'', JStr ''INFO''), (''class'', JStr ''svcB.Y'')])], False)
                      else ([], True)),
     pause_at = (\<lambda>f i. False), is_dir = (\<lambda>p. p = ''logs''),
     walk = (\<lambda>p. if p = ''logs'' then [(''logs'', ''a.gz''), (''logs'', ''notes.txt''), (''logs'', ''b.gz'')]
                  else []),
     validate_customer_folder = (\<lambda>c. Inr True),
     list_s3_files = (\<lambda>p. Inr []), strftime_ymdh = (\<lambda>h. [])\<rparr>"

definition example_row :: job_row where
  "example_row = \<lparr>j_folder_path = ''logs'', j_status = RUNNING, j_files_processed = 0,
     j_total_files = 0, j_current_file = []\<rparr>"

definition empty_db :: database where
  "empty_db = \<lparr>jobs = Map.empty, logs = [], job_metadata = [], class_level_counts = [],
     service_level_counts = [], timeline_counts = [], class_service_counts = []\<rparr>"

text \<open>The state in which the task of the new job \<^verbatim>\<open>logs_t0\<close> starts.\<close>

definition example_db :: database where
  "example_db = empty_db\<lparr>jobs := [''logs_t0'' \<mapsto> example_row]\<rparr>"

definition example_state :: state where
  "example_state = \<lparr>db = example_db, durable = [example_db], reg = example_row, logger = []\<rparr>"

definition line_no_class :: "(string \<times> json) list" where
  "line_no_class = [(''level'', JStr ''INFO''), (''log'', JStr ''no class field'')]"

definition line_bogus_level :: "(string \<times> json) list" where
  "line_bogus_level = [(''level'', JStr ''BOGUS''), (''class'', JStr ''svcA.ClassX'')]"

(*PROPERTIES*)

section \<open>Parsing a line\<close>

lemma split_first_dot_props:
  assumes "CHR ''.'' \<in> set c"
  shows "c = fst (split_first_dot c) @ ''.'' @ snd (split_first_dot c)"
    and "CHR ''.'' \<notin> set (fst (split_first_dot c))"
proof -
  let ?P = "\<lambda>x. x \<noteq> CHR ''.''"
  from assms have ne: "dropWhile ?P c \<noteq> []" by auto
  then have "hd (dropWhile ?P c) = CHR ''.''" using hd_dropWhile[of ?P c] by simp
  with ne have "dropWhile ?P c = CHR ''.'' # drop 1 (dropWhile ?P c)"
    by (cases "dropWhile ?P c") simp_all
  then have "takeWhile ?P c @ ''.'' @ drop 1 (dropWhile ?P c) = takeWhile ?P c @ dropWhile ?P c"
    by simp
  then show "c = fst (split_first_dot c) @ ''.'' @ snd (split_first_dot c)"
    by (simp add: split_first_dot_def)
  show "CHR ''.'' \<notin> set (fst (split_first_dot c))"
    using set_takeWhileD[of "CHR ''.''" ?P c] by (auto simp: split_first_dot_def)
qed

lemma class_split_str:
  "class_split (JStr c) = Inr (if CHR ''.'' \<in> set c then Some (split_first_dot c) else None)"
  by (auto simp: class_split_def)

lemma class_split_null: "class_split JNull = Inr None"
  by (simp add: class_split_def)

lemma strptime_any_Inr:
  "strptime_any E v = Inr h \<Longrightarrow> \<exists>t. v = JStr t \<and> hour_of E t = Some h"
  by (cases v) (auto split: option.splits)

lemma strptime_any_ValueError:
  "strptime_any E v = Inl ValueError \<Longrightarrow> \<exists>t. v = JStr t \<and> hour_of E t = None"
  by (cases v) (auto split: option.splits)

text \<open>What \<open>parse_fields\<close> has computed when it returns an entry.\<close>

lemma parse_fields_entry:
  assumes "parse_fields E (JObj kvs) = (m, i, Inr e)"
  shows "level_of (log_levels E) (dict_get kvs ''level'' (JStr ''UNKNOWN'')) = Inr (e_level e)"
    and "\<exists>sc. class_split (dict_get kvs ''class'' JNull) = Inr sc \<and> m = (sc = None) \<and>
           e_service e = (case sc of Some p \<Rightarrow> fst p | None \<Rightarrow> ''Unknown'') \<and>
           e_class e = (case sc of Some p \<Rightarrow> snd p | None \<Rightarrow> ''Unknown'')"
    and "e_logtime e = dict_get kvs ''logtime'' (JStr [])"
    and "e_log e = dict_get kvs ''log'' (JStr [])"
    and "\<not> truthy (e_logtime e) \<or> (\<exists>t. e_logtime e = JStr t \<and> i = (hour_of E t = None))"
    and "\<not> truthy (e_logtime e) \<longrightarrow> \<not> i"
  using assms
  by (auto simp: Let_def split: sum.splits option.splits if_splits prod.splits
           dest: strptime_any_Inr strptime_any_ValueError)

lemma level_of_cases:
  "level_of ls v = Inr l \<Longrightarrow>
     l = (case v of JStr s \<Rightarrow> if s \<in> set ls then s else ''UNKNOWN'' | _ \<Rightarrow> ''UNKNOWN'')"
  by (cases v) auto

lemma parse_log_line_entry:
  assumes "parse_log_line E (Some (JObj kvs)) = Some p"
  shows "p_level p = dict_get kvs ''level'' (JStr ''UNKNOWN'')"
    and "\<exists>sc. class_split (dict_get kvs ''class'' JNull) = Inr sc \<and>
           p_service p = (case sc of Some q \<Rightarrow> fst q | None \<Rightarrow> ''Unknown'') \<and>
           p_class p = (case sc of Some q \<Rightarrow> snd q | None \<Rightarrow> ''Unknown'')"
  using assms
  by (auto simp: Let_def split: sum.splits option.splits if_splits prod.splits)

lemma parse_fields_no_class:
  "parse_fields example_env (JObj line_no_class) =
     (True, False, Inr \<lparr>e_logtime = JStr [], e_level = ''INFO'', e_class = ''Unknown'',
        e_service = ''Unknown'', e_log = JStr ''no class field''\<rparr>)"
  by (simp add: example_env_def line_no_class_def dict_get_def dict_lookup_def class_split_def)

lemma parse_log_line_bogus:
  "parse_log_line example_env (Some (JObj line_bogus_level)) =
     Some \<lparr>p_logtime = JStr [], p_level = JStr ''BOGUS'', p_class = ''ClassX'',
        p_service = ''svcA'', p_log = JStr []\<rparr>"
  by (simp add: example_env_def line_bogus_level_def dict_get_def dict_lookup_def
      class_split_def split_first_dot_def Let_def)

text \<open>
  Claim C7, as the code has it.  Where the loop body of \<open>process_log_file\<close> yields an
  entry for a decoded object, the level is \<open>UNKNOWN\<close> when the key \<open>level\<close> is absent or its
  value is none of the configured levels, and the configured level otherwise; a string
  under \<open>class\<close> that contains a dot is service, dot, class with no dot in the service;
  and with no \<open>class\<close> key, or a string without a dot under it, class and service are both
  \<open>Unknown\<close>.  \<open>LogProcessor.parse_log_line\<close> treats the class field in the same way, but it
  returns the level as the line carries it and substitutes \<open>UNKNOWN\<close> only for an absent
  key.
\<close>

theorem parse_rules:
  "(parse_fields E (JObj kvs) = (m, i, Inr e) \<longrightarrow>
      (dict_lookup kvs ''level'' = None \<longrightarrow> e_level e = ''UNKNOWN'') \<and>
      (\<forall>v. dict_lookup kvs ''level'' = Some v \<and> v \<notin> JStr ` set (log_levels E)
           \<longrightarrow> e_level e = ''UNKNOWN'') \<and>
      (\<forall>l. dict_lookup kvs ''level'' = Some (JStr l) \<and> l \<in> set (log_levels E)
           \<longrightarrow> e_level e = l) \<and>
      (\<forall>c. dict_lookup kvs ''class'' = Some (JStr c) \<and> CHR ''.'' \<in> set c
           \<longrightarrow> c = e_service e @ ''.'' @ e_class e \<and> CHR ''.'' \<notin> set (e_service e)) \<and>
      (dict_lookup kvs ''class'' = None \<or>
         (\<exists>c. dict_lookup kvs ''class'' = Some (JStr c) \<and> CHR ''.'' \<notin> set c)
           \<longrightarrow> e_class e = ''Unknown'' \<and> e_service e = ''Unknown'')) \<and>
   (parse_log_line E (Some (JObj kvs)) = Some p \<longrightarrow>
      (dict_lookup kvs ''level'' = None \<longrightarrow> p_level p = JStr ''UNKNOWN'') \<and>
      (\<forall>v. dict_lookup kvs ''level'' = Some v \<longrightarrow> p_level p = v) \<and>
      (\<forall>c. dict_lookup kvs ''class'' = Some (JStr c) \<and> CHR ''.'' \<in> set c
           \<longrightarrow> c = p_service p @ ''.'' @ p_class p \<and> CHR ''.'' \<notin> set (p_service p)) \<and>
      (dict_lookup kvs ''class'' = None \<or>
         (\<exists>c. dict_lookup kvs ''class'' = Some (JStr c) \<and> CHR ''.'' \<notin> set c)
           \<longrightarrow> p_class p = ''Unknown'' \<and> p_service p = ''Unknown''))"
proof (intro conjI impI)
  assume a: "parse_fields E (JObj kvs) = (m, i, Inr e)"
  note lv = level_of_cases[OF parse_fields_entry(1)[OF a]]
  from parse_fields_entry(2)[OF a] obtain sc where
    sc: "class_split (dict_get kvs ''class'' JNull) = Inr sc"
        "e_service e = (case sc of Some p \<Rightarrow> fst p | None \<Rightarrow> ''Unknown'')"
        "e_class e = (case sc of Some p \<Rightarrow> snd p | None \<Rightarrow> ''Unknown'')"
    by blast
  show "e_level e = ''UNKNOWN''" if "dict_lookup kvs ''level'' = None"
    using lv that by (simp add: dict_get_def)
  show "\<forall>v. dict_lookup kvs ''level'' = Some v \<and> v \<notin> JStr ` set (log_levels E)
           \<longrightarrow> e_level e = ''UNKNOWN''"
    using lv by (auto simp: dict_get_def split: json.splits)
  show "\<forall>l. dict_lookup kvs ''level'' = Some (JStr l) \<and> l \<in> set (log_levels E)
           \<longrightarrow> e_level e = l"
    using lv by (auto simp: dict_get_def)
  show "\<forall>c. dict_lookup kvs ''class'' = Some (JStr c) \<and> CHR ''.'' \<in> set c
           \<longrightarrow> c = e_service e @ ''.'' @ e_class e \<and> CHR ''.'' \<notin> set (e_service e)"
    using sc split_first_dot_props
    by (auto simp: dict_get_def class_split_str split: prod.splits)
  show "e_class e = ''Unknown''" "e_service e = ''Unknown''"
    if "dict_lookup kvs ''class'' = None \<or>
         (\<exists>c. dict_lookup kvs ''class'' = Some (JStr c) \<and> CHR ''.'' \<notin> set c)"
    using sc that by (auto simp: dict_get_def class_split_str class_split_null)
next
  assume a: "parse_log_line E (Some (JObj kvs)) = Some p"
  note lv = parse_log_line_entry(1)[OF a]
  from parse_log_line_entry(2)[OF a] obtain sc where
    sc: "class_split (dict_get kvs ''class'' JNull) = Inr sc"
        "p_service p = (case sc of Some q \<Rightarrow> fst q | None \<Rightarrow> ''Unknown'')"
        "p_class p = (case sc of Some q \<Rightarrow> snd q | None \<Rightarrow> ''Unknown'')"
    by blast
  show "p_level p = JStr ''UNKNOWN''" if "dict_lookup kvs ''level'' = None"
    using lv that by (simp add: dict_get_def)
  show "\<forall>v. dict_lookup kvs ''level'' = Some v \<longrightarrow> p_level p = v"
    using lv by (simp add: dict_get_def)
  show "\<forall>c. dict_lookup kvs ''class'' = Some (JStr c) \<and> CHR ''.'' \<in> set c
           \<longrightarrow> c = p_service p @ ''.'' @ p_class p \<and> CHR ''.'' \<notin> set (p_service p)"
    using sc split_first_dot_props
    by (auto simp: dict_get_def class_split_str split: prod.splits)
  show "p_class p = ''Unknown''" "p_service p = ''Unknown''"
    if "dict_lookup kvs ''class'' = None \<or>
         (\<exists>c. dict_lookup kvs ''class'' = Some (JStr c) \<and> CHR ''.'' \<notin> set c)"
    using sc that by (auto simp: dict_get_def class_split_str class_split_null)
qed

text \<open>The rules at the line \<^verbatim>\<open>{"level":"INFO","log":"no class field"}\<close> and at a line with
  an unconfigured level and the class field \<^verbatim>\<open>svcA.ClassX\<close>.\<close>

theorem parse_rules_witness:
  "parse_fields example_env (JObj line_no_class) =
       (True, False, Inr \<lparr>e_logtime = JStr [], e_level = ''INFO'', e_class = ''Unknown'',
          e_service = ''Unknown'', e_log = JStr ''no class field''\<rparr>) \<and>
   dict_lookup line_no_class ''class'' = None \<and>
   dict_lookup line_no_class ''level'' = Some (JStr ''INFO'') \<and>
   ''INFO'' \<in> set (log_levels example_env) \<and>
   parse_log_line example_env (Some (JObj line_bogus_level)) =
       Some \<lparr>p_logtime = JStr [], p_level = JStr ''BOGUS'', p_class = ''ClassX'',
          p_service = ''svcA'', p_log = JStr []\<rparr> \<and>
   dict_lookup line_bogus_level ''class'' = Some (JStr ''svcA.ClassX'') \<and>
   CHR ''.'' \<in> set ''svcA.ClassX'' \<and>
   ''svcA.ClassX'' = ''svcA'' @ ''.'' @ ''ClassX''"
  using parse_rules[of example_env line_no_class True False
      "\<lparr>e_logtime = JStr [], e_level = ''INFO'', e_class = ''Unknown'',
          e_service = ''Unknown'', e_log = JStr ''no class field''\<rparr>"
      "\<lparr>p_logtime = JStr [], p_level = JStr ''BOGUS'', p_class = ''ClassX'',
          p_service = ''svcA'', p_log = JStr []\<rparr>"]
    parse_rules[of example_env line_bogus_level True False
      "\<lparr>e_logtime = JStr [], e_level = ''INFO'', e_class = ''Unknown'',
          e_service = ''Unknown'', e_log = JStr ''no class field''\<rparr>"
      "\<lparr>p_logtime = JStr [], p_level = JStr ''BOGUS'', p_class = ''ClassX'',
          p_service = ''svcA'', p_log = JStr []\<rparr>"]
    parse_fields_no_class parse_log_line_bogus
  by (simp add: line_no_class_def line_bogus_level_def dict_lookup_def example_env_def)

text \<open>Against claim C7 as stated: \<open>parse_log_line\<close> returns the level \<open>BOGUS\<close>, which is not
  configured, unchanged.\<close>

theorem parse_log_line_keeps_level:
  "''BOGUS'' \<notin> set (log_levels example_env) \<and>
   dict_lookup line_bogus_level ''level'' = Some (JStr ''BOGUS'') \<and>
   map_option p_level (parse_log_line example_env (Some (JObj line_bogus_level))) =
     Some (JStr ''BOGUS'')"
proof -
  have "map_option p_level (parse_log_line example_env (Some (JObj line_bogus_level))) =
     Some (JStr ''BOGUS'')"
    by (subst parse_log_line_bogus) simp
  then show ?thesis
    by (simp add: example_env_def line_bogus_level_def dict_lookup_def)
qed

section \<open>Counting\<close>

lemma wsum_Nil [simp]: "wsum P [] = 0"
  by (simp add: wsum_def)

lemma wsum_Cons: "wsum P ((k, n) # tbl) = (if P k then n else 0) + wsum P tbl"
  by (simp add: wsum_def)

lemma wsum_bump: "wsum P (bump k n tbl) = wsum P tbl + (if P k then n else 0)"
  by (induction tbl) (auto simp: wsum_Cons)

lemma wsum_fold_bump:
  "wsum P (fold (\<lambda>k. bump k 1) ks tbl) = wsum P tbl + length (filter P ks)"
  by (induction ks arbitrary: tbl) (auto simp: wsum_bump)

lemma wsum_upsert_all: "wsum P (upsert_all batch tbl) = wsum P tbl + wsum P batch"
  unfolding upsert_all_def
  by (induction batch arbitrary: tbl) (auto simp: wsum_bump wsum_Cons)

section \<open>summarize\<close>

lemma summarize_entry_ok:
  assumes "ts_ok e"
  shows "\<exists>B'. summarize_entry E job e B = Inr B' \<and>
           (\<forall>T. batch_of T B' = fold (\<lambda>k. bump k 1) (entry_keys E T job e) (batch_of T B))"
proof -
  obtain r where r: "summarize_entry E job e B = r" by simp
  have "\<exists>B'. r = Inr B' \<and>
           batch_of T B' = fold (\<lambda>k. bump k 1) (entry_keys E T job e) (batch_of T B)" for T
    using assms r
    by (cases T; cases "e_logtime e")
       (auto simp: summarize_entry_def ts_ok_def parses_def Let_def split: option.splits)
  then show ?thesis using r by (metis sum.inject(2))
qed

lemma summarize_ok:
  assumes "\<forall>e\<in>set es. ts_ok e"
  shows "\<exists>B'. summarize E job es B = Inr B' \<and>
           (\<forall>T. batch_of T B' =
                  fold (\<lambda>k. bump k 1) (concat (map (entry_keys E T job) es)) (batch_of T B))"
  using assms
proof (induction es arbitrary: B)
  case Nil
  then show ?case by simp
next
  case (Cons e es)
  from Cons.prems obtain B1 where
    B1: "summarize_entry E job e B = Inr B1"
        "\<forall>T. batch_of T B1 = fold (\<lambda>k. bump k 1) (entry_keys E T job e) (batch_of T B)"
    using summarize_entry_ok[of e E job B] by auto
  from Cons.IH[of B1] Cons.prems obtain B' where
    "summarize E job es B1 = Inr B'"
    "\<forall>T. batch_of T B' = fold (\<lambda>k. bump k 1) (concat (map (entry_keys E T job) es)) (batch_of T B1)"
    by auto
  with B1 show ?case by simp
qed

lemma batch_of_empty [simp]: "batch_of T empty_batches = []"
  by (cases T) (simp_all add: empty_batches_def)

text \<open>The effect of update_summary_tables on a batch whose timestamps cannot raise.\<close>

lemma update_summary_tables_db:
  assumes "\<forall>e\<in>set es. ts_ok e"
  shows "logs (db (update_summary_tables E job es s)) = logs (db s)"
    and "jobs (db (update_summary_tables E job es s)) = jobs (db s)"
    and "job_metadata (db (update_summary_tables E job es s)) = job_metadata (db s)"
    and "reg (update_summary_tables E job es s) = reg s"
    and "durable (update_summary_tables E job es s) = db (update_summary_tables E job es s) # durable s"
    and "wsum P (table_of T (db (update_summary_tables E job es s))) =
           wsum P (table_of T (db s)) + length (filter P (concat (map (entry_keys E T job) es)))"
proof -
  from summarize_ok[OF assms, of E job empty_batches] obtain B where
    B: "summarize E job es empty_batches = Inr B"
       "\<forall>T. batch_of T B = fold (\<lambda>k. bump k 1) (concat (map (entry_keys E T job) es)) []"
    by auto
  show "logs (db (update_summary_tables E job es s)) = logs (db s)"
    and "jobs (db (update_summary_tables E job es s)) = jobs (db s)"
    and "job_metadata (db (update_summary_tables E job es s)) = job_metadata (db s)"
    and "reg (update_summary_tables E job es s) = reg s"
    and "durable (update_summary_tables E job es s) = db (update_summary_tables E job es s) # durable s"
    using B(1) by (simp_all add: update_summary_tables_def Let_def commit_def log_msg_def)
  have "wsum P (batch_of T B) = length (filter P (concat (map (entry_keys E T job) es)))"
    by (subst B(2)[rule_format], subst wsum_fold_bump) simp
  then show "wsum P (table_of T (db (update_summary_tables E job es s))) =
           wsum P (table_of T (db s)) + length (filter P (concat (map (entry_keys E T job) es)))"
    using B(1)
    by (cases T) (simp_all add: update_summary_tables_def Let_def commit_def log_msg_def wsum_upsert_all)
qed

section \<open>Extending a database\<close>

lemma extends_refl: "extends E b [] b"
  by (simp add: extends_def)

lemma extends_trans:
  "extends E b r1 c \<Longrightarrow> extends E c r2 d \<Longrightarrow> extends E b (r1 @ r2) d"
  by (simp add: extends_def)

lemma extends_tallied: "tallied E b \<Longrightarrow> extends E b rows d \<Longrightarrow> tallied E d"
  by (simp add: extends_def tallied_def)

lemma table_of_update [simp]:
  "table_of T (d\<lparr>logs := l\<rparr>) = table_of T d"
  "table_of T (d\<lparr>job_metadata := m\<rparr>) = table_of T d"
  "table_of T (d\<lparr>jobs := j\<rparr>) = table_of T d"
  by (cases T; simp)+

lemma row_entry_make_row [simp]: "row_entry (make_row job f i e) = e"
  by (simp add: row_entry_def make_row_def)

lemma r_job_id_make_row [simp]: "r_job_id (make_row job f i e) = job"
  by (simp add: make_row_def)

lemma batch_keys:
  assumes "batch_inv job L"
  shows "concat (map (entry_keys E T job) (log_entries L)) = concat (map (row_keys E T) (log_batch L))"
proof -
  from assms have j: "\<forall>r\<in>set (log_batch L). r_job_id r = job"
    and m: "log_entries L = map row_entry (log_batch L)"
    by (simp_all add: batch_inv_def)
  have "concat (map (\<lambda>r. entry_keys E T job (row_entry r)) (log_batch L)) =
        concat (map (row_keys E T) (log_batch L))"
    using j by (intro arg_cong[where f=concat] map_cong) (auto simp: row_keys_def)
  then show ?thesis by (simp add: m comp_def)
qed

lemma processed_files_fold_class:
  "t \<noteq> ''processed_file'' \<Longrightarrow>
   processed_files j (d\<lparr>job_metadata := fold (\<lambda>c. insert_or_ignore (job, t, c)) cs md\<rparr>) =
   processed_files j (d\<lparr>job_metadata := md\<rparr>)"
  by (induction cs arbitrary: md) (auto simp: processed_files_def insert_or_ignore_def)

lemma flush_effect:
  assumes "batch_inv job L"
  shows "extends E (db s) (log_batch L) (db (flush E job L s))"
    and "reg (flush E job L s) = reg s"
    and "jobs (db (flush E job L s)) = jobs (db s)"
    and "\<exists>d. durable (flush E job L s) = [db (flush E job L s), d] @ durable s \<and>
             extends E (db s) (log_batch L) d"
proof -
  let ?s1 = "s\<lparr>db := (db s)\<lparr>logs := logs (db s) @ log_batch L\<rparr>\<rparr>"
  let ?s2 = "update_summary_tables E job (log_entries L) ?s1"
  have ok: "\<forall>e\<in>set (log_entries L). ts_ok e" using assms by (simp add: batch_inv_def)
  note u = update_summary_tables_db[OF ok, where E=E and job=job and s="?s1"]
  have mid: "extends E (db s) (log_batch L) (db ?s2)"
    unfolding extends_def
  proof (intro conjI allI)
    show "logs (db ?s2) = logs (db s) @ log_batch L" using u(1) by simp
    show "wsum P (table_of T (db ?s2)) =
           wsum P (table_of T (db s)) + length (filter P (concat (map (row_keys E T) (log_batch L))))" for T P
      using u(6)[of P T] batch_keys[OF assms, of E T] by simp
    show "processed_files j (db ?s2) = processed_files j (db s)" for j
      using u(3) by (simp add: processed_files_def)
    show "map_option (\<lambda>r. r\<lparr>j_status := RUNNING\<rparr>) (jobs (db ?s2) j) =
          map_option (\<lambda>r. r\<lparr>j_status := RUNNING\<rparr>) (jobs (db s) j)" for j
      using u(2) by simp
  qed
  have fl: "flush E job L s =
     commit (?s2\<lparr>db := (db ?s2)\<lparr>job_metadata :=
        fold (\<lambda>c. insert_or_ignore (job, ''service'', c)) (services L)
          (fold (\<lambda>c. insert_or_ignore (job, ''class'', c)) (classes L) (job_metadata (db ?s2)))\<rparr>\<rparr>)"
    by (simp add: flush_def Let_def)
  show e: "extends E (db s) (log_batch L) (db (flush E job L s))"
    using mid unfolding fl extends_def
    by (simp add: commit_def processed_files_fold_class)
  show "reg (flush E job L s) = reg s"
    unfolding fl using u(4) by (simp add: commit_def)
  show "jobs (db (flush E job L s)) = jobs (db s)"
    unfolding fl using u(2) by (simp add: commit_def)
  show "\<exists>d. durable (flush E job L s) = [db (flush E job L s), d] @ durable s \<and>
             extends E (db s) (log_batch L) d"
    using mid u(5) unfolding fl by (simp add: commit_def)
qed

section \<open>One line\<close>

lemma parse_fields_ts_ok: "parse_fields E v = (m, i, Inr e) \<Longrightarrow> ts_ok e"
proof (cases v)
  case (JObj kvs)
  assume "parse_fields E v = (m, i, Inr e)"
  with JObj parse_fields_entry(5)[of E kvs m i e] show ?thesis
    by (auto simp: ts_ok_def)
qed simp_all

lemma extends_update_status:
  "extends E b rows d \<Longrightarrow> extends E b rows (update_job job (\<lambda>r. r\<lparr>j_status := st\<rparr>) d)"
  by (auto simp: extends_def update_job_def processed_files_def option.map_comp comp_def)

text \<open>A database without pending writes.\<close>

lemma yield_point_effect:
  shows "extends E (db s) [] (db (yield_point E job f i s))"
    and "\<exists>new. durable (yield_point E job f i s) = new @ durable s \<and>
           (\<forall>d\<in>set new. extends E (db s) [] d)"
    and "reg (yield_point E job f i s) = reg s \<or>
         (j_status (reg s) = RUNNING \<and> reg (yield_point E job f i s) = (reg s)\<lparr>j_status := PAUSED\<rparr>)"
    and "durable s \<noteq> [] \<and> db s = hd (durable s) \<Longrightarrow>
         db (yield_point E job f i s) = hd (durable (yield_point E job f i s)) \<and>
         durable (yield_point E job f i s) \<noteq> []"
  using extends_update_status[OF extends_refl, of E "db s" job PAUSED] extends_refl[of E "db s"]
  by (auto simp: yield_point_def pause_core_def commit_def split: if_splits)

lemma parsed_Nil [simp]: "parsed E job f [] = []"
  by (simp add: parsed_def)

lemma parsed_Cons: "parsed E job f (il # ils) = parsed E job f [il] @ parsed E job f ils"
  by (simp add: parsed_def)

lemma parsed_append: "parsed E job f (xs @ ys) = parsed E job f xs @ parsed E job f ys"
  by (simp add: parsed_def)

lemma line_step_effect:
  assumes inv: "batch_inv job L" and step: "line_step E job f il (L, s) = (L', s')"
  shows "batch_inv job L'"
    and "\<exists>C. extends E (db s) C (db s') \<and> C @ log_batch L' = log_batch L @ parsed E job f [il]"
    and "\<exists>new. durable s' = new @ durable s \<and>
           (\<forall>d\<in>set new. extends E (db s) (log_batch L @ parsed E job f [il]) d)"
    and "reg s' = reg s \<or> (j_status (reg s) = RUNNING \<and> reg s' = (reg s)\<lparr>j_status := PAUSED\<rparr>)"
    and "durable s \<noteq> [] \<and> db s = hd (durable s) \<Longrightarrow> db s' = hd (durable s') \<and> durable s' \<noteq> []"
proof -
  obtain idx line where il: "il = (idx, line)" by (cases il)
  let ?G = "batch_inv job L' \<and>
      (\<exists>C. extends E (db s) C (db s') \<and> C @ log_batch L' = log_batch L @ parsed E job f [il]) \<and>
      (\<exists>new. durable s' = new @ durable s \<and>
           (\<forall>d\<in>set new. extends E (db s) (log_batch L @ parsed E job f [il]) d)) \<and>
      (reg s' = reg s \<or> (j_status (reg s) = RUNNING \<and> reg s' = (reg s)\<lparr>j_status := PAUSED\<rparr>)) \<and>
      (durable s \<noteq> [] \<and> db s = hd (durable s) \<longrightarrow> db s' = hd (durable s') \<and> durable s' \<noteq> [])"
  have all: ?G
  proof (cases line)
    case None
    with il step inv show ?thesis
      using extends_refl[of E "db s"]
      by (auto simp: line_step_def log_msg_def parsed_def)
  next
    case (Some v)
    obtain m i r where pf: "parse_fields E v = (m, i, r)" by (cases "parse_fields E v")
    show ?thesis
    proof (cases r)
      case (Inl x)
      with il step inv Some pf show ?thesis
        using extends_refl[of E "db s"]
        by (auto simp: line_step_def log_msg_def parsed_def batch_inv_def Let_def)
    next
      case (Inr e)
      let ?row = "make_row job f idx e"
      let ?L2 = "L\<lparr>missing_class_count := missing_class_count L + (if m then 1 else 0),
                   invalid_timestamp_count := invalid_timestamp_count L + (if i then 1 else 0),
                   log_batch := log_batch L @ [?row],
                   log_entries := log_entries L @ [e],
                   classes := List.insert (e_class e) (classes L),
                   services := List.insert (e_service e) (services L)\<rparr>"
      have inv2: "batch_inv job ?L2"
        using inv parse_fields_ts_ok[of E v m i e] pf Inr by (auto simp: batch_inv_def)
      have p1: "parsed E job f [il] = [?row]"
        using il Some pf Inr by (simp add: parsed_def)
      show ?thesis
      proof (cases "length (log_batch ?L2) \<ge> batch_size")
        case False
        with il step Some pf Inr have "L' = ?L2" "s' = s"
          by (auto simp: line_step_def Let_def)
        with inv2 p1 show ?thesis using extends_refl[of E "db s"] by auto
      next
        case True
        let ?sf = "flush E job ?L2 s"
        from True il step Some pf Inr have L': "L' = ?L2\<lparr>log_batch := [], log_entries := [], classes := [], services := []\<rparr>"
          and s': "s' = yield_point E job f idx ?sf"
          by (auto simp: line_step_def Let_def)
        note fe = flush_effect[OF inv2, where E=E and s=s]
        note ye = yield_point_effect[where E=E and s="?sf" and job=job and f=f and i=idx]
        from fe(4) obtain dm where dm: "durable ?sf = [db ?sf, dm] @ durable s"
          "extends E (db s) (log_batch ?L2) dm" by blast
        from ye(2) obtain new where new: "durable s' = new @ durable ?sf"
          "\<forall>d\<in>set new. extends E (db ?sf) [] d" unfolding s' by blast
        have b: "batch_inv job L'" unfolding L' by (simp add: batch_inv_def)
        have c: "extends E (db s) (log_batch ?L2) (db s')"
          using extends_trans[OF fe(1) ye(1)] unfolding s' by simp
        have h: "\<forall>d\<in>set (new @ [db ?sf, dm]). extends E (db s) (log_batch ?L2) d"
          using new(2) dm(2) fe(1) extends_trans[OF fe(1)] by auto
        have r: "reg s' = reg s \<or> (j_status (reg s) = RUNNING \<and> reg s' = (reg s)\<lparr>j_status := PAUSED\<rparr>)"
          using ye(3) fe(2) unfolding s' by auto
        have cl: "db s' = hd (durable s') \<and> durable s' \<noteq> []"
          using ye(4) dm(1) unfolding s' by simp
        from b c h r cl new(1) dm(1) p1 show ?thesis
          unfolding L' by (intro conjI) (auto intro!: exI[of _ "log_batch L @ [?row]"] exI[of _ "new @ [db ?sf, dm]"])
      qed
    qed
  qed
  from all show "batch_inv job L'"
    and "\<exists>C. extends E (db s) C (db s') \<and> C @ log_batch L' = log_batch L @ parsed E job f [il]"
    and "\<exists>new. durable s' = new @ durable s \<and>
           (\<forall>d\<in>set new. extends E (db s) (log_batch L @ parsed E job f [il]) d)"
    and "reg s' = reg s \<or> (j_status (reg s) = RUNNING \<and> reg s' = (reg s)\<lparr>j_status := PAUSED\<rparr>)"
    and "durable s \<noteq> [] \<and> db s = hd (durable s) \<Longrightarrow> db s' = hd (durable s') \<and> durable s' \<noteq> []"
    by blast+
qed

section \<open>All lines of a file\<close>

lemma process_lines_Nil [simp]: "process_lines E job f [] Ls = Ls"
  by (simp add: process_lines_def)

lemma process_lines_Cons:
  "process_lines E job f (il # ils) Ls = process_lines E job f ils (line_step E job f il Ls)"
  by (simp add: process_lines_def)

lemma process_lines_effect:
  assumes "batch_inv job L" and "process_lines E job f ils (L, s) = (L', s')"
  shows "batch_inv job L' \<and>
      (\<exists>C. extends E (db s) C (db s') \<and> C @ log_batch L' = log_batch L @ parsed E job f ils) \<and>
      (\<exists>new. durable s' = new @ durable s \<and>
           (\<forall>d\<in>set new. \<exists>n. extends E (db s) (take n (log_batch L @ parsed E job f ils)) d)) \<and>
      (reg s' = reg s \<or> (j_status (reg s) = RUNNING \<and> reg s' = (reg s)\<lparr>j_status := PAUSED\<rparr>)) \<and>
      (durable s \<noteq> [] \<and> db s = hd (durable s) \<longrightarrow> db s' = hd (durable s') \<and> durable s' \<noteq> [])"
  using assms
proof (induction ils arbitrary: L s)
  case Nil
  then show ?case using extends_refl[of E "db s"] by auto
next
  case (Cons il ils)
  obtain L1 s1 where st: "line_step E job f il (L, s) = (L1, s1)"
    by (cases "line_step E job f il (L, s)")
  note le = line_step_effect[OF Cons.prems(1) st]
  from Cons.prems(2) st have rest: "process_lines E job f ils (L1, s1) = (L', s')"
    by (simp add: process_lines_Cons)
  note ih = Cons.IH[OF le(1) rest]
  from le(2) obtain C1 where C1: "extends E (db s) C1 (db s1)"
    "C1 @ log_batch L1 = log_batch L @ parsed E job f [il]" by blast
  from ih obtain C2 where C2: "extends E (db s1) C2 (db s')"
    "C2 @ log_batch L' = log_batch L1 @ parsed E job f ils" by blast
  from le(3) obtain new1 where new1: "durable s1 = new1 @ durable s"
    "\<forall>d\<in>set new1. extends E (db s) (log_batch L @ parsed E job f [il]) d" by blast
  from ih obtain new2 where new2: "durable s' = new2 @ durable s1"
    "\<forall>d\<in>set new2. \<exists>n. extends E (db s1) (take n (log_batch L1 @ parsed E job f ils)) d" by blast
  let ?all = "log_batch L @ parsed E job f (il # ils)"
  have all: "?all = C1 @ log_batch L1 @ parsed E job f ils"
    using C1(2) parsed_Cons[of E job f il ils] by simp
  have a: "extends E (db s) (C1 @ C2) (db s') \<and> (C1 @ C2) @ log_batch L' = ?all"
    using extends_trans[OF C1(1) C2(1)] C2(2) all by simp
  have h1: "\<exists>n. extends E (db s) (take n ?all) d" if "d \<in> set new1" for d
  proof -
    have "take (length (log_batch L @ parsed E job f [il])) ?all = log_batch L @ parsed E job f [il]"
      using parsed_Cons[of E job f il ils] by simp
    with new1(2) that show ?thesis by metis
  qed
  have h2: "\<exists>n. extends E (db s) (take n ?all) d" if "d \<in> set new2" for d
  proof -
    from new2(2) that obtain n where "extends E (db s1) (take n (log_batch L1 @ parsed E job f ils)) d"
      by blast
    from extends_trans[OF C1(1) this]
    have "extends E (db s) (take (length C1 + n) ?all) d" unfolding all by simp
    then show ?thesis by blast
  qed
  have h: "durable s' = (new2 @ new1) @ durable s \<and>
           (\<forall>d\<in>set (new2 @ new1). \<exists>n. extends E (db s) (take n ?all) d)"
    using new1(1) new2(1) h1 h2 by auto
  have r: "reg s' = reg s \<or> (j_status (reg s) = RUNNING \<and> reg s' = (reg s)\<lparr>j_status := PAUSED\<rparr>)"
    using le(4) ih by auto
  have c: "durable s \<noteq> [] \<and> db s = hd (durable s) \<longrightarrow> db s' = hd (durable s') \<and> durable s' \<noteq> []"
    using le(5) ih by blast
  from ih a h r c show ?case by blast
qed

section \<open>A whole file\<close>

lemma batch_inv_init: "batch_inv job init_locals"
  by (simp add: batch_inv_def init_locals_def)

text \<open>The state in which the marker is about to be written: everything the file gave is
  in the database.\<close>

lemma before_marker:
  assumes pl: "process_lines E job f (enumerate 0 (fst (read_file E f))) (init_locals, s) = (L, s1)"
  defines "s2 \<equiv> (if log_batch L \<noteq> [] then flush E job L s1 else s1)"
  shows "extends E (db s) (file_rows E job f) (db s2)"
    and "\<exists>new. durable s2 = new @ durable s \<and>
           (\<forall>d\<in>set new. \<exists>n. extends E (db s) (take n (file_rows E job f)) d)"
    and "reg s2 = reg s \<or> (j_status (reg s) = RUNNING \<and> reg s2 = (reg s)\<lparr>j_status := PAUSED\<rparr>)"
    and "durable s \<noteq> [] \<and> db s = hd (durable s) \<Longrightarrow> db s2 = hd (durable s2) \<and> durable s2 \<noteq> []"
    and "\<exists>n. extends E (db s) (take n (file_rows E job f)) (db s1)"
    and "\<exists>new. durable s1 = new @ durable s \<and>
           (\<forall>d\<in>set new. \<exists>n. extends E (db s) (take n (file_rows E job f)) d)"
    and "reg s1 = reg s \<or> (j_status (reg s) = RUNNING \<and> reg s1 = (reg s)\<lparr>j_status := PAUSED\<rparr>)"
proof -
  let ?R = "file_rows E job f"
  note pe = process_lines_effect[OF batch_inv_init pl]
  from pe obtain C where C: "extends E (db s) C (db s1)" "C @ log_batch L = ?R"
    by (auto simp: init_locals_def file_rows_def)
  from pe obtain new where new: "durable s1 = new @ durable s"
    "\<forall>d\<in>set new. \<exists>n. extends E (db s) (take n ?R) d"
    by (auto simp: init_locals_def file_rows_def)
  from pe have inv: "batch_inv job L" by blast
  from pe have r1: "reg s1 = reg s \<or> (j_status (reg s) = RUNNING \<and> reg s1 = (reg s)\<lparr>j_status := PAUSED\<rparr>)"
    by blast
  from pe have c1: "durable s \<noteq> [] \<and> db s = hd (durable s) \<longrightarrow> db s1 = hd (durable s1) \<and> durable s1 \<noteq> []"
    by blast
  have "take (length C) ?R = C" using C(2)[symmetric] by simp
  with C(1) show "\<exists>n. extends E (db s) (take n ?R) (db s1)" by metis
  from new show "\<exists>new. durable s1 = new @ durable s \<and>
           (\<forall>d\<in>set new. \<exists>n. extends E (db s) (take n ?R) d)" by blast
  from r1 show "reg s1 = reg s \<or> (j_status (reg s) = RUNNING \<and> reg s1 = (reg s)\<lparr>j_status := PAUSED\<rparr>)" .
  note fe = flush_effect[OF inv, where E=E and s=s1]
  show e2: "extends E (db s) ?R (db s2)"
  proof (cases "log_batch L = []")
    case True
    with C show ?thesis by (simp add: s2_def)
  next
    case False
    with extends_trans[OF C(1) fe(1)] C(2) show ?thesis by (simp add: s2_def)
  qed
  have full: "take (length ?R) ?R = ?R" by simp
  show "\<exists>new. durable s2 = new @ durable s \<and>
           (\<forall>d\<in>set new. \<exists>n. extends E (db s) (take n ?R) d)"
  proof (cases "log_batch L = []")
    case True
    with new show ?thesis by (auto simp: s2_def)
  next
    case False
    from fe(4) obtain dm where dm: "durable (flush E job L s1) = [db (flush E job L s1), dm] @ durable s1"
      "extends E (db s1) (log_batch L) dm" by blast
    have "extends E (db s) ?R dm" using extends_trans[OF C(1) dm(2)] C(2) by simp
    with e2 False full have "\<forall>d\<in>set [db s2, dm]. \<exists>n. extends E (db s) (take n ?R) d"
      by (metis list.set_cases list.inject list.distinct(1) list.set(1) empty_iff set_ConsD)
    with new dm(1) False show ?thesis
      by (intro exI[of _ "[db s2, dm] @ new"]) (auto simp: s2_def)
  qed
  show "reg s2 = reg s \<or> (j_status (reg s) = RUNNING \<and> reg s2 = (reg s)\<lparr>j_status := PAUSED\<rparr>)"
    using r1 fe(2) by (auto simp: s2_def)
  show "db s2 = hd (durable s2) \<and> durable s2 \<noteq> []" if "durable s \<noteq> [] \<and> db s = hd (durable s)"
  proof (cases "log_batch L = []")
    case True
    with c1 that show ?thesis by (simp add: s2_def)
  next
    case False
    from fe(4) False show ?thesis by (auto simp: s2_def)
  qed
qed

lemma marker_iff:
  "(job, ''processed_file'', f) \<in> set (job_metadata d) \<longleftrightarrow> f \<in> set (processed_files job d)"
  by (auto simp: processed_files_def image_iff)


lemma process_log_file_effect:
  assumes run: "process_log_file E f job s = (r, s')"
  shows "r = None \<or> r = Some IOError \<or> r = Some IntegrityError"
    and "r = Some IOError \<longleftrightarrow> snd (read_file E f)"
    and "r = Some IntegrityError \<Longrightarrow> f \<in> set (processed_files job (db s))"
    and "r = None \<Longrightarrow> f \<notin> set (processed_files job (db s)) \<and>
           (\<exists>b. extends E (db s) (file_rows E job f) b \<and>
                db s' = b\<lparr>job_metadata := job_metadata b @ [(job, ''processed_file'', f)]\<rparr> \<and>
                (durable s \<noteq> [] \<and> db s = hd (durable s) \<longrightarrow> b = hd (tl (durable s'))))"
    and "r \<noteq> None \<Longrightarrow> \<exists>n. extends E (db s) (take n (file_rows E job f)) (db s')"
    and "\<exists>older. durable s' = (if r = None then [db s'] else []) @ older @ durable s \<and>
           (\<forall>d\<in>set older. \<exists>n. extends E (db s) (take n (file_rows E job f)) d)"
    and "reg s' = reg s \<or> (j_status (reg s) = RUNNING \<and> reg s' = (reg s)\<lparr>j_status := PAUSED\<rparr>)"
    and "durable s \<noteq> [] \<and> db s = hd (durable s) \<Longrightarrow> db s' = hd (durable s') \<and> durable s' \<noteq> []"
proof -
  let ?R = "file_rows E job f"
  obtain lines fails where rf: "read_file E f = (lines, fails)" by (cases "read_file E f")
  obtain L s1 where pl: "process_lines E job f (enumerate 0 (fst (read_file E f))) (init_locals, s) = (L, s1)"
    by (cases "process_lines E job f (enumerate 0 (fst (read_file E f))) (init_locals, s)")
  define s2 where "s2 = (if log_batch L \<noteq> [] then flush E job L s1 else s1)"
  note bm = before_marker[OF pl, folded s2_def]
  let ?marker = "(job, ''processed_file'', f)"
  have mk: "?marker \<in> set (job_metadata (db s2)) \<longleftrightarrow> f \<in> set (processed_files job (db s))"
    using bm(1) by (simp add: marker_iff extends_def)
  let ?G = "(r = None \<or> r = Some IOError \<or> r = Some IntegrityError) \<and>
    (r = Some IOError \<longleftrightarrow> snd (read_file E f)) \<and>
    (r = Some IntegrityError \<longrightarrow> f \<in> set (processed_files job (db s))) \<and>
    (r = None \<longrightarrow> f \<notin> set (processed_files job (db s)) \<and>
           (\<exists>b. extends E (db s) ?R b \<and>
                db s' = b\<lparr>job_metadata := job_metadata b @ [?marker]\<rparr> \<and>
                (durable s \<noteq> [] \<and> db s = hd (durable s) \<longrightarrow> b = hd (tl (durable s'))))) \<and>
    (r \<noteq> None \<longrightarrow> (\<exists>n. extends E (db s) (take n ?R) (db s'))) \<and>
    (\<exists>older. durable s' = (if r = None then [db s'] else []) @ older @ durable s \<and>
           (\<forall>d\<in>set older. \<exists>n. extends E (db s) (take n ?R) d)) \<and>
    (reg s' = reg s \<or> (j_status (reg s) = RUNNING \<and> reg s' = (reg s)\<lparr>j_status := PAUSED\<rparr>)) \<and>
    (durable s \<noteq> [] \<and> db s = hd (durable s) \<longrightarrow> db s' = hd (durable s') \<and> durable s' \<noteq> [])"
  have full: "take (length ?R) ?R = ?R" by simp
  have all: ?G
  proof (cases fails)
    case True
    with run rf pl have r: "r = Some IOError" and s': "s' = log_msg (Err_file f IOError) s1"
      by (auto simp: process_log_file_def)
    from bm(5,6,7) r s' True rf pl process_lines_effect[OF batch_inv_init pl]
    show ?thesis by (auto simp: log_msg_def)
  next
    case False
    show ?thesis
    proof (cases "?marker \<in> set (job_metadata (db s2))")
      case True
      with run rf pl False have r: "r = Some IntegrityError"
        and s': "s' = log_msg (Err_file f IntegrityError) s2"
        by (auto simp: process_log_file_def Let_def s2_def)
      from bm(1) full have "\<exists>n. extends E (db s) (take n ?R) (db s2)" by metis
      with bm(2,3,4) r s' True False rf mk show ?thesis by (auto simp: log_msg_def)
    next
      case nm: False
      with run rf pl False have r: "r = None"
        and s': "s' = log_msg (Info_processed f job (missing_class_count L) (invalid_timestamp_count L))
                        (commit (s2\<lparr>db := (db s2)\<lparr>job_metadata := job_metadata (db s2) @ [?marker]\<rparr>\<rparr>))"
        by (auto simp: process_log_file_def Let_def s2_def)
      have d': "db s' = (db s2)\<lparr>job_metadata := job_metadata (db s2) @ [?marker]\<rparr>"
        and h': "durable s' = db s' # durable s2" and r': "reg s' = reg s2"
        unfolding s' by (simp_all add: log_msg_def commit_def)
      from bm(2) obtain new where new: "durable s2 = new @ durable s"
        "\<forall>d\<in>set new. \<exists>n. extends E (db s) (take n ?R) d" by blast
      have prev: "db s2 = hd (tl (durable s'))" if "durable s \<noteq> [] \<and> db s = hd (durable s)"
        using bm(4)[OF that] h' by simp
      have "\<exists>b. extends E (db s) ?R b \<and>
                db s' = b\<lparr>job_metadata := job_metadata b @ [?marker]\<rparr> \<and>
                (durable s \<noteq> [] \<and> db s = hd (durable s) \<longrightarrow> b = hd (tl (durable s')))"
        using bm(1) d' prev by blast
      moreover have "\<exists>older. durable s' = [db s'] @ older @ durable s \<and>
           (\<forall>d\<in>set older. \<exists>n. extends E (db s) (take n ?R) d)"
        using new h' by auto
      moreover have "db s' = hd (durable s') \<and> durable s' \<noteq> []" using h' by simp
      ultimately show ?thesis using r False rf nm mk bm(3) r' by auto
    qed
  qed
  from all show "r = None \<or> r = Some IOError \<or> r = Some IntegrityError"
    and "r = Some IOError \<longleftrightarrow> snd (read_file E f)"
    and "r = Some IntegrityError \<Longrightarrow> f \<in> set (processed_files job (db s))"
    and "r = None \<Longrightarrow> f \<notin> set (processed_files job (db s)) \<and>
           (\<exists>b. extends E (db s) (file_rows E job f) b \<and>
                db s' = b\<lparr>job_metadata := job_metadata b @ [(job, ''processed_file'', f)]\<rparr> \<and>
                (durable s \<noteq> [] \<and> db s = hd (durable s) \<longrightarrow> b = hd (tl (durable s'))))"
    and "r \<noteq> None \<Longrightarrow> \<exists>n. extends E (db s) (take n (file_rows E job f)) (db s')"
    and "\<exists>older. durable s' = (if r = None then [db s'] else []) @ older @ durable s \<and>
           (\<forall>d\<in>set older. \<exists>n. extends E (db s) (take n (file_rows E job f)) d)"
    and "reg s' = reg s \<or> (j_status (reg s) = RUNNING \<and> reg s' = (reg s)\<lparr>j_status := PAUSED\<rparr>)"
    and "durable s \<noteq> [] \<and> db s = hd (durable s) \<Longrightarrow> db s' = hd (durable s') \<and> durable s' \<noteq> []"
    by blast+
qed

section \<open>The log does not steer the run\<close>

lemma nolog_fields [simp]:
  "db (nolog s) = db s" "durable (nolog s) = durable s" "reg (nolog s) = reg s"
  by (simp_all add: nolog_def)

lemma nolog_eq_iff: "nolog s = nolog t \<longleftrightarrow> db s = db t \<and> durable s = durable t \<and> reg s = reg t"
  by (cases s; cases t) (auto simp: nolog_def)

lemma nolog_log_msg [simp]: "nolog (log_msg ev s) = nolog s"
  by (simp add: nolog_def log_msg_def)

lemma nolog_commit: "nolog (commit s) = nolog (commit (nolog s))"
  by (simp add: nolog_def commit_def)

lemma nolog_update_summary_tables:
  "nolog (update_summary_tables E job es s) = nolog (update_summary_tables E job es (nolog s))"
  by (auto simp: update_summary_tables_def Let_def nolog_def commit_def log_msg_def split: sum.splits)

lemma nolog_db_update: "(nolog s)\<lparr>db := d\<rparr> = nolog (s\<lparr>db := d\<rparr>)"
  by (cases s) (simp add: nolog_def)

lemma nolog_flush: "nolog (flush E job L s) = nolog (flush E job L (nolog s))"
proof -
  let ?d = "(db s)\<lparr>logs := logs (db s) @ log_batch L\<rparr>"
  have "nolog (update_summary_tables E job (log_entries L) (s\<lparr>db := ?d\<rparr>))
      = nolog (update_summary_tables E job (log_entries L) ((nolog s)\<lparr>db := ?d\<rparr>))"
    unfolding nolog_db_update by (rule nolog_update_summary_tables)
  then show ?thesis
    by (simp add: flush_def Let_def nolog_eq_iff commit_def)
qed


lemma nolog_cong: "nolog s = nolog t \<Longrightarrow> nolog (flush E job L s) = nolog (flush E job L t)"
  by (metis nolog_flush)




section \<open>The log only grows\<close>



lemma logger_yield_point [simp]: "logger (yield_point E job f i s) = logger s"
  by (auto simp: yield_point_def commit_def split: sum.splits prod.splits)







section \<open>Lines that are no JSON\<close>






section \<open>A class field with an empty side\<close>

lemma parsed_member:
  assumes "(idx, Some v) \<in> set ils" and "parse_fields E v = (m, i, Inr e)"
  shows "make_row job f idx e \<in> set (parsed E job f ils)"
  using assms by (force simp: parsed_def)

lemma concat_map_filter_empty:
  assumes "g x = []"
  shows "concat (map g (filter (\<lambda>r. r \<noteq> x) rows)) = concat (map g rows)"
  using assms by (induction rows) auto

text \<open>
  Claim C10.  Take a line of a file whose class field is a string with a dot and with
  nothing on one side of the first dot, and let the line yield an entry and the file be
  processed.  The split itself raises nothing, \<^verbatim>\<open>missing_class_count\<close> is not incremented,
  and the row is in \<^verbatim>\<open>logs\<close>.  In each summary table whose key contains the empty field the
  row has no key, and the table has grown by exactly the counts of the other rows of the
  file.
\<close>

theorem empty_side_omitted:
  assumes "dict_lookup kvs ''class'' = Some (JStr c)" and "CHR ''.'' \<in> set c"
    and "fst (split_first_dot c) = [] \<or> snd (split_first_dot c) = []"
    and "parse_fields E (JObj kvs) = (m, i, Inr e)"
    and "idx < length (fst (read_file E f))" and "fst (read_file E f) ! idx = Some (JObj kvs)"
    and "process_log_file E f job s = (None, s')"
  shows "class_split (dict_get kvs ''class'' JNull) = Inr (Some (split_first_dot c)) \<and>
         e_service e = fst (split_first_dot c) \<and> e_class e = snd (split_first_dot c) \<and> \<not> m \<and>
         make_row job f idx e \<in> set (logs (db s')) \<and>
         (\<forall>T. (e_class e = [] \<and> T \<in> {Class_level, Class_service}) \<or>
               (e_service e = [] \<and> T \<in> {Service_level, Class_service}) \<longrightarrow>
              row_keys E T (make_row job f idx e) = [] \<and>
              (\<forall>P. wsum P (table_of T (db s')) =
                     wsum P (table_of T (db s)) +
                     length (filter P (concat (map (row_keys E T)
                       (filter (\<lambda>r. r \<noteq> make_row job f idx e) (file_rows E job f)))))))"
proof -
  let ?row = "make_row job f idx e"
  have cs: "class_split (dict_get kvs ''class'' JNull) = Inr (Some (split_first_dot c))"
    using assms(1,2) by (simp add: dict_get_def class_split_str)
  from parse_fields_entry(2)[OF assms(4)] cs
  have e: "e_service e = fst (split_first_dot c)" "e_class e = snd (split_first_dot c)" "\<not> m"
    by auto
  have "(idx, Some (JObj kvs)) \<in> set (enumerate 0 (fst (read_file E f)))"
    using assms(5,6) by (auto simp: in_set_enumerate_eq)
  from parsed_member[OF this assms(4)] have mem: "?row \<in> set (file_rows E job f)"
    by (simp add: file_rows_def)
  from process_log_file_effect(4)[OF assms(7)] obtain b where
    b: "extends E (db s) (file_rows E job f) b"
       "db s' = b\<lparr>job_metadata := job_metadata b @ [(job, ''processed_file'', f)]\<rparr>" by blast
  have l: "logs (db s') = logs (db s) @ file_rows E job f"
    using b by (simp add: extends_def)
  have w: "wsum P (table_of T (db s')) =
             wsum P (table_of T (db s)) +
             length (filter P (concat (map (row_keys E T) (file_rows E job f))))" for T P
    using b by (simp add: extends_def)
  have k: "row_keys E T ?row = []"
    if "(e_class e = [] \<and> T \<in> {Class_level, Class_service}) \<or>
        (e_service e = [] \<and> T \<in> {Service_level, Class_service})" for T
    using that by (auto simp: row_keys_def)
  have "wsum P (table_of T (db s')) =
          wsum P (table_of T (db s)) +
          length (filter P (concat (map (row_keys E T)
             (filter (\<lambda>r. r \<noteq> ?row) (file_rows E job f)))))"
    if "(e_class e = [] \<and> T \<in> {Class_level, Class_service}) \<or>
        (e_service e = [] \<and> T \<in> {Service_level, Class_service})" for T P
    using w[of P T]
      concat_map_filter_empty[where g="row_keys E T" and x="?row" and rows="file_rows E job f"]
      k[OF that] by simp
  with cs e mem l k show ?thesis by auto
qed

text \<open>The third line of \<^verbatim>\<open>logs/a.gz\<close> has the class field \<^verbatim>\<open>svcA.\<close>: its row is written with an
  empty class and has no key in \<^verbatim>\<open>class_level_counts\<close>.\<close>

theorem empty_side_omitted_witness:
  "dict_lookup [(''level'', JStr ''INFO''), (''class'', JStr ''svcA.''), (''log'', JStr ''x'')] ''class''
     = Some (JStr ''svcA.'') \<and>
   CHR ''.'' \<in> set ''svcA.'' \<and> snd (split_first_dot ''svcA.'') = [] \<and>
   (2::nat) < length (fst (read_file example_env ''logs/a.gz'')) \<and>
   fst (process_log_file example_env ''logs/a.gz'' ''logs_t0'' example_state) = None \<and>
   \<lparr>r_job_id = ''logs_t0'', r_timestamp = JStr [], r_level = ''INFO'', r_class = [],
      r_service = ''svcA'', r_log_message = JStr ''x'', r_folder = ''logs'',
      r_file_name = ''a.gz'', r_line_idx = 2\<rparr>
     \<in> set (logs (db (snd (process_log_file example_env ''logs/a.gz'' ''logs_t0'' example_state)))) \<and>
   row_keys example_env Class_level
     \<lparr>r_job_id = ''logs_t0'', r_timestamp = JStr [], r_level = ''INFO'', r_class = [],
      r_service = ''svcA'', r_log_message = JStr ''x'', r_folder = ''logs'',
      r_file_name = ''a.gz'', r_line_idx = 2\<rparr> = []"
proof -
  let ?kvs = "[(''level'', JStr ''INFO''), (''class'', JStr ''svcA.''), (''log'', JStr ''x'')]"
  let ?e = "\<lparr>e_logtime = JStr [], e_level = ''INFO'', e_class = [], e_service = ''svcA'',
             e_log = JStr ''x''\<rparr>"
  let ?run = "process_log_file example_env ''logs/a.gz'' ''logs_t0'' example_state"
  have h1: "dict_lookup ?kvs ''class'' = Some (JStr ''svcA.'')" by (simp add: dict_lookup_def)
  have h2: "CHR ''.'' \<in> set ''svcA.''" by simp
  have h3: "fst (split_first_dot ''svcA.'') = [] \<or> snd (split_first_dot ''svcA.'') = []"
    by (simp add: split_first_dot_def)
  have h4: "parse_fields example_env (JObj ?kvs) = (False, False, Inr ?e)"
    by (simp add: example_env_def dict_get_def dict_lookup_def class_split_def split_first_dot_def Let_def)
  have h5: "2 < length (fst (read_file example_env ''logs/a.gz''))"
    by (simp add: example_env_def example_lines_def)
  have h6: "fst (read_file example_env ''logs/a.gz'') ! 2 = Some (JObj ?kvs)"
    by (simp add: example_env_def example_lines_def)
  have r: "fst ?run = None" by code_simp
  have h7: "?run = (None, snd ?run)" using r by (metis prod.collapse)
  have mr: "make_row ''logs_t0'' ''logs/a.gz'' 2 ?e =
     \<lparr>r_job_id = ''logs_t0'', r_timestamp = JStr [], r_level = ''INFO'', r_class = [],
      r_service = ''svcA'', r_log_message = JStr ''x'', r_folder = ''logs'',
      r_file_name = ''a.gz'', r_line_idx = 2\<rparr>"
    by (simp add: make_row_def dirname_def basename_def)
  from empty_side_omitted[OF h1 h2 h3 h4 h5 h6 h7] h1 h2 h3 h5 r
  show ?thesis unfolding mr by (simp add: split_first_dot_def)
qed

section \<open>generate_s3_paths\<close>

lemmas strptime_defs = strptime_ymdh_def match_ymdh_def re_Y_def re_m_def re_d_def re_H_def
  re_dash_def two_chars_def one_char_def space_digit_def digits_def digit_val_def List.bind_def
  datetime_hours_def days_before_year_def days_before_month_def days_in_month_def leap_year_def

lemma max_hours_value: "max_hours = 87649415"
  by (simp add: max_hours_def strptime_defs)

lemma strptime_last_hour: "strptime_ymdh (Some ''99991231-23'') = Inr max_hours"
  by (simp add: max_hours_value) (simp add: strptime_defs)

text \<open>\<^verbatim>\<open>strptime\<close> is lenient: a one-digit month, day or hour is accepted.\<close>

lemma strptime_lenient:
  "strptime_ymdh (Some ''2024011-5'') = strptime_ymdh (Some ''20240101-05'')"
  by (simp add: strptime_defs)

lemma paths_loop_range:
  assumes "end_dt < max_hours" and "current_dt \<le> end_dt + 1"
  shows "paths_loop E c current_dt end_dt paths =
     Inr (paths @ map (\<lambda>h. py_str c @ ''/'' @ strftime_ymdh E h @ ''/'') [current_dt..<end_dt + 1])"
  using assms
proof (induction E c current_dt end_dt paths rule: paths_loop.induct)
  case (1 E c current_dt end_dt paths)
  show ?case
  proof (cases "current_dt \<le> end_dt")
    case True
    with "1.prems" have no: "\<not> current_dt + 1 > max_hours" by simp
    from True have "[current_dt..<end_dt + 1] = current_dt # [current_dt + 1..<end_dt + 1]"
      by (simp add: upt_conv_Cons)
    with "1.IH"[OF True refl no "1.prems"(1)] True no show ?thesis
      by (subst paths_loop.simps) (simp add: Let_def)
  next
    case False
    with "1.prems" have "current_dt = end_dt + 1" by simp
    then show ?thesis by (subst paths_loop.simps) simp
  qed
qed

text \<open>The paths for a range that ends before the last hour of the year 9999, and the
  response for a malformed or reversed range.\<close>

lemma generate_s3_paths_range:
  assumes "strptime_ymdh sd = Inr start_dt" and "strptime_ymdh ed = Inr end_dt"
    and "start_dt \<le> end_dt" and "end_dt < max_hours"
  shows "generate_s3_paths E c sd ed =
           Inr (map (\<lambda>h. py_str c @ ''/'' @ strftime_ymdh E h @ ''/'') [start_dt..<end_dt + 1])"
    and "length (map (\<lambda>h. py_str c @ ''/'' @ strftime_ymdh E h @ ''/'') [start_dt..<end_dt + 1]) =
           end_dt - start_dt + 1"
  using assms paths_loop_range[of end_dt start_dt E c "[]"]
  by (simp_all add: generate_s3_paths_def)

lemma strptime_ymdh_error: "strptime_ymdh (Some t) = Inl y \<Longrightarrow> y = ValueError"
  by (auto simp: strptime_ymdh_def split: list.splits prod.splits if_splits)

lemma generate_s3_paths_invalid:
  assumes "strptime_ymdh (Some sd) = Inl x \<or> strptime_ymdh (Some ed) = Inl y \<or>
           (\<exists>a b. strptime_ymdh (Some sd) = Inr a \<and> strptime_ymdh (Some ed) = Inr b \<and> a > b)"
  shows "generate_s3_paths E c (Some sd) (Some ed) = Inl (HTTPException 400)"
  using assms strptime_ymdh_error
  by (auto simp: generate_s3_paths_def http_of_def split: sum.splits)

text \<open>
  Claim C9 at the last hour that a \<^verbatim>\<open>datetime\<close> can hold.  Both strings have the form
  \<^verbatim>\<open>YYYYMMDD-HH\<close>, \<^verbatim>\<open>strptime\<close> accepts them, and start is not after end; the claim
  promises the one prefix of that hour.  The loop appends the prefix and then adds an hour
  to the last hour of the year 9999, which raises \<^verbatim>\<open>OverflowError\<close>, and the function
  answers with the response 500.
\<close>

theorem generate_s3_paths_last_hour:
  "strptime_ymdh (Some ''99991231-23'') = Inr max_hours \<and>
   generate_s3_paths example_env (Some ''cust'') (Some ''99991231-23'') (Some ''99991231-23'') =
     Inl (HTTPException 500)"
proof -
  have "paths_loop example_env (Some ''cust'') max_hours max_hours [] = Inl OverflowError"
    by (subst paths_loop.simps) (simp add: Let_def)
  then show ?thesis
    by (simp add: generate_s3_paths_def strptime_last_hour http_of_def)
qed

end
